theory Spec2Isabelle
  imports Main "HOL-Library.AList"
begin

section \<open>Python values, dictionaries and errors\<close>

text \<open>
  Property values are what the protocol carries (strings and integers) together with
  Python's \<open>None\<close>, which \<open>dict.get\<close> returns for a missing key.  On these values
  Python's \<open>==\<close> is the equality of the datatype.
\<close>

datatype pyval = PNone | PInt int | PStr string

text \<open>
  A \<open>dict\<close> with string keys, in insertion order.  \<open>d.get(k)\<close> is \<open>dict_get\<close>,
  \<open>d[k] = v\<close> is \<open>dict_set\<close> (an existing key keeps its place, a new key goes last).
\<close>

type_synonym pydict = "(string \<times> pyval) list"

definition dict_get :: "pydict \<Rightarrow> string \<Rightarrow> pyval" where
  "dict_get m k = (case map_of m k of None \<Rightarrow> PNone | Some v \<Rightarrow> v)"

definition dict_set :: "pydict \<Rightarrow> string \<Rightarrow> pyval \<Rightarrow> pydict" where
  "dict_set m k v = AList.update k v m"

text \<open>Truthiness, as \<open>if x:\<close> tests it: \<open>None\<close>, the empty string and the empty dict are false.\<close>

definition str_truthy :: "string option \<Rightarrow> bool" where
  "str_truthy k = (case k of None \<Rightarrow> False | Some s \<Rightarrow> s \<noteq> [])"

definition dict_truthy :: "pydict option \<Rightarrow> bool" where
  "dict_truthy p = (case p of None \<Rightarrow> False | Some m \<Rightarrow> m \<noteq> [])"

datatype error =
    DeviceNotBoundError
  | TypeError
  | ValueError
  | TimeoutError
  | DecryptionError
  | ProtocolError
  | TransportError

text \<open>The builtin \<open>bool(x)\<close>.\<close>

fun py_bool :: "pyval \<Rightarrow> bool" where
  "py_bool PNone = False"
| "py_bool (PInt i) = (i \<noteq> 0)"
| "py_bool (PStr s) = (s \<noteq> [])"

text \<open>
  The builtin \<open>int(x)\<close>: \<open>int(None)\<close> raises \<open>TypeError\<close>; a string that is not an
  integer literal raises \<open>ValueError\<close>.  Which strings are integer literals is Python's
  business, so the reading of strings is the parameter \<open>lit\<close>.
\<close>

fun py_int :: "(string \<Rightarrow> int option) \<Rightarrow> pyval \<Rightarrow> error + int" where
  "py_int lit PNone = Inl TypeError"
| "py_int lit (PInt i) = Inr i"
| "py_int lit (PStr s) = (case lit s of None \<Rightarrow> Inl ValueError | Some i \<Rightarrow> Inr i)"

section \<open>The module \<open>greeclimate.network_helper\<close>, as \<open>device.py\<close> uses it\<close>

text \<open>
  \<open>device.py\<close> names these members of the enumeration \<open>Props\<close>.  The enumeration itself
  is declared in \<open>network_helper\<close>: the string value of each member and the members that
  iterating over \<open>Props\<close> yields are parameters (\<open>Props_value\<close>, \<open>Props_members\<close>).
\<close>

datatype Props =
    POWER | MODE | TEMP_SET | TEMP_UNIT | FAN_SPEED | FRESH_AIR | XFAN | ANION
  | SLEEP | LIGHT | SWING_HORIZ | SWING_VERT | QUIET | TURBO | STEADY_HEAT | POWER_SAVE

text \<open>
  The three network functions \<open>device.py\<close> calls are parameters too: each either raises
  or returns.  Every call a method makes is recorded, in order, as a \<open>net_call\<close>, so that
  "no network access" is the empty list of calls.
\<close>

record 'i nethelper =
  Props_value :: "Props \<Rightarrow> string"
  Props_members :: "Props list"
  nh_bind_device :: "'i \<Rightarrow> error + string option"
  nh_request_state :: "string list \<Rightarrow> 'i \<Rightarrow> string option \<Rightarrow> error + pydict"
  nh_send_state :: "pydict \<Rightarrow> 'i \<Rightarrow> string option \<Rightarrow> error + pydict"

datatype 'i net_call =
    Bind_device 'i
  | Request_state "string list" 'i "string option"
  | Send_state pydict 'i "string option"

section \<open>The class \<open>Device\<close>\<close>

record 'i device =
  device_info :: 'i
  device_key :: "string option"
  properties :: "pydict option"

text \<open>
  What running a method gives: the value it returns or the exception it raises, the
  object afterwards, and the network calls it made.
\<close>

record ('i, 'a) run =
  result :: "error + 'a"
  dev :: "'i device"
  net :: "'i net_call list"

definition Device :: "'i \<Rightarrow> 'i device" where
  "Device info = \<lparr>device_info = info, device_key = None, properties = None\<rparr>"

definition bind :: "'i nethelper \<Rightarrow> 'i device \<Rightarrow> string option \<Rightarrow> ('i, unit) run" where
  "bind nh d key =
     (if str_truthy key then
        \<lparr>result = Inr (), dev = d\<lparr>device_key := key\<rparr>, net = []\<rparr>
      else
        (case nh_bind_device nh (device_info d) of
           Inl e \<Rightarrow> \<lparr>result = Inl e, dev = d, net = [Bind_device (device_info d)]\<rparr>
         | Inr k \<Rightarrow>
             \<lparr>result = Inr (), dev = d\<lparr>device_key := k\<rparr>,
              net = [Bind_device (device_info d)]\<rparr>))"

definition update_state :: "'i nethelper \<Rightarrow> 'i device \<Rightarrow> ('i, unit) run" where
  "update_state nh d =
     (if \<not> str_truthy (device_key d) then
        \<lparr>result = Inl DeviceNotBoundError, dev = d, net = []\<rparr>
      else
        (let props = map (Props_value nh) (Props_members nh);
             call = Request_state props (device_info d) (device_key d)
         in case nh_request_state nh props (device_info d) (device_key d) of
              Inl e \<Rightarrow> \<lparr>result = Inl e, dev = d, net = [call]\<rparr>
            | Inr m \<Rightarrow> \<lparr>result = Inr (), dev = d\<lparr>properties := Some m\<rparr>, net = [call]\<rparr>))"

definition get_property :: "'i nethelper \<Rightarrow> 'i device \<Rightarrow> Props \<Rightarrow> pyval" where
  "get_property nh d name =
     (if dict_truthy (properties d) then
        (case properties d of
           Some m \<Rightarrow> dict_get m (Props_value nh name)
         | None \<Rightarrow> PNone)
      else PNone)"

text \<open>
  \<open>set_property\<close> in the order of its statements: \<open>ensure_properties\<close> is lines 143-144
  (a falsy \<open>_properties\<close> is replaced by a new empty dict), then the comparison with the
  cached value, then the assignment of line 149 (\<open>store_property\<close>), and only then the
  call of \<open>send_state\<close> at line 152, with the key the object holds at that moment.
\<close>

definition ensure_properties :: "'i device \<Rightarrow> 'i device" where
  "ensure_properties d = (if \<not> dict_truthy (properties d) then d\<lparr>properties := Some []\<rparr> else d)"

definition cached :: "'i device \<Rightarrow> pydict" where
  "cached d = (case properties d of Some m \<Rightarrow> m | None \<Rightarrow> [])"

definition store_property :: "'i device \<Rightarrow> string \<Rightarrow> pyval \<Rightarrow> 'i device" where
  "store_property d k v = d\<lparr>properties := Some (dict_set (cached d) k v)\<rparr>"

definition set_property :: "'i nethelper \<Rightarrow> 'i device \<Rightarrow> Props \<Rightarrow> pyval \<Rightarrow> ('i, unit) run" where
  "set_property nh d name v =
     (let d1 = ensure_properties d in
      if dict_get (cached d1) (Props_value nh name) = v then
        \<lparr>result = Inr (), dev = d1, net = []\<rparr>
      else
        (let d2 = store_property d1 (Props_value nh name) v;
             props = [(Props_value nh name, v)];
             call = Send_state props (device_info d2) (device_key d2)
         in case nh_send_state nh props (device_info d2) (device_key d2) of
              Inl e \<Rightarrow> \<lparr>result = Inl e, dev = d2, net = [call]\<rparr>
            | Inr _ \<Rightarrow> \<lparr>result = Inr (), dev = d2, net = [call]\<rparr>))"

text \<open>The read accessors: ten apply \<open>bool\<close> to the cached value, six apply \<open>int\<close>.\<close>

definition power_get :: "'i nethelper \<Rightarrow> 'i device \<Rightarrow> bool" where
  "power_get nh d = py_bool (get_property nh d POWER)"

definition mode :: "(string \<Rightarrow> int option) \<Rightarrow> 'i nethelper \<Rightarrow> 'i device \<Rightarrow> error + int" where
  "mode lit nh d = py_int lit (get_property nh d MODE)"

definition target_temperature ::
  "(string \<Rightarrow> int option) \<Rightarrow> 'i nethelper \<Rightarrow> 'i device \<Rightarrow> error + int" where
  "target_temperature lit nh d = py_int lit (get_property nh d TEMP_SET)"

definition temperature_units ::
  "(string \<Rightarrow> int option) \<Rightarrow> 'i nethelper \<Rightarrow> 'i device \<Rightarrow> error + int" where
  "temperature_units lit nh d = py_int lit (get_property nh d TEMP_UNIT)"

definition fan_speed :: "(string \<Rightarrow> int option) \<Rightarrow> 'i nethelper \<Rightarrow> 'i device \<Rightarrow> error + int" where
  "fan_speed lit nh d = py_int lit (get_property nh d FAN_SPEED)"

definition fresh_air :: "'i nethelper \<Rightarrow> 'i device \<Rightarrow> bool" where
  "fresh_air nh d = py_bool (get_property nh d FRESH_AIR)"

definition xfan :: "'i nethelper \<Rightarrow> 'i device \<Rightarrow> bool" where
  "xfan nh d = py_bool (get_property nh d XFAN)"

definition anion :: "'i nethelper \<Rightarrow> 'i device \<Rightarrow> bool" where
  "anion nh d = py_bool (get_property nh d ANION)"

definition sleep :: "'i nethelper \<Rightarrow> 'i device \<Rightarrow> bool" where
  "sleep nh d = py_bool (get_property nh d SLEEP)"

definition light :: "'i nethelper \<Rightarrow> 'i device \<Rightarrow> bool" where
  "light nh d = py_bool (get_property nh d LIGHT)"

definition horizontal_swing ::
  "(string \<Rightarrow> int option) \<Rightarrow> 'i nethelper \<Rightarrow> 'i device \<Rightarrow> error + int" where
  "horizontal_swing lit nh d = py_int lit (get_property nh d SWING_HORIZ)"

definition vertical_swing ::
  "(string \<Rightarrow> int option) \<Rightarrow> 'i nethelper \<Rightarrow> 'i device \<Rightarrow> error + int" where
  "vertical_swing lit nh d = py_int lit (get_property nh d SWING_VERT)"

definition quiet :: "'i nethelper \<Rightarrow> 'i device \<Rightarrow> bool" where
  "quiet nh d = py_bool (get_property nh d QUIET)"

definition turbo :: "'i nethelper \<Rightarrow> 'i device \<Rightarrow> bool" where
  "turbo nh d = py_bool (get_property nh d TURBO)"

definition steady_heat :: "'i nethelper \<Rightarrow> 'i device \<Rightarrow> bool" where
  "steady_heat nh d = py_bool (get_property nh d STEADY_HEAT)"

definition power_save :: "'i nethelper \<Rightarrow> 'i device \<Rightarrow> bool" where
  "power_save nh d = py_bool (get_property nh d POWER_SAVE)"

section \<open>Stand-ins for the network, to run the model on concrete inputs\<close>

text \<open>
  Two instances of the parameters, in the manner of the responders of
  \<open>tests/test_network.py\<close>: one device that answers every request (binding gives the
  key \<open>acbd1234\<close>, a status request reports every requested property as \<open>1\<close>, a command
  is echoed), and one that never answers, so that every call times out.
\<close>

fun sample_value :: "Props \<Rightarrow> string" where
  "sample_value POWER = ''Pow''"
| "sample_value MODE = ''Mod''"
| "sample_value TEMP_SET = ''SetTem''"
| "sample_value TEMP_UNIT = ''TemUn''"
| "sample_value FAN_SPEED = ''WdSpd''"
| "sample_value FRESH_AIR = ''Air''"
| "sample_value XFAN = ''Blo''"
| "sample_value ANION = ''Health''"
| "sample_value SLEEP = ''SwhSlp''"
| "sample_value LIGHT = ''Lig''"
| "sample_value SWING_HORIZ = ''SwingLfRig''"
| "sample_value SWING_VERT = ''SwUpDn''"
| "sample_value QUIET = ''Quiet''"
| "sample_value TURBO = ''Tur''"
| "sample_value STEADY_HEAT = ''StHt''"
| "sample_value POWER_SAVE = ''SvSt''"

definition sample_members :: "Props list" where
  "sample_members =
     [POWER, MODE, TEMP_SET, TEMP_UNIT, FAN_SPEED, FRESH_AIR, XFAN, ANION,
      SLEEP, LIGHT, SWING_HORIZ, SWING_VERT, QUIET, TURBO, STEADY_HEAT, POWER_SAVE]"

definition answering :: "string nethelper" where
  "answering =
     \<lparr>Props_value = sample_value,
      Props_members = sample_members,
      nh_bind_device = (\<lambda>info. Inr (Some ''acbd1234'')),
      nh_request_state = (\<lambda>names info key. Inr (map (\<lambda>n. (n, PInt 1)) names)),
      nh_send_state = (\<lambda>props info key. Inr props)\<rparr>"

definition silent :: "string nethelper" where
  "silent =
     \<lparr>Props_value = sample_value,
      Props_members = sample_members,
      nh_bind_device = (\<lambda>info. Inl TimeoutError),
      nh_request_state = (\<lambda>names info key. Inl TimeoutError),
      nh_send_state = (\<lambda>props info key. Inl TimeoutError)\<rparr>"

text \<open>A bound device whose cache holds two properties.\<close>

definition living_room :: "string device" where
  "living_room =
     \<lparr>device_info = ''192.168.1.29'', device_key = Some ''acbd1234'',
      properties = Some [(''Pow'', PInt 0), (''Mod'', PInt 1)]\<rparr>"

section \<open>The codec (spec section 4.1)\<close>

text \<open>
  Modelled from the spec: the module \<open>greeclimate.network\<close> (\<open>encrypt_payload\<close>,
  \<open>decrypt_payload\<close>, \<open>bind_device\<close>, \<open>request_state\<close>, \<open>send_state\<close>) is not among the
  sources; only its test \<open>tests/test_network.py\<close> is.  Everything from here to the
  stand-ins for the protocol follows sections 3, 4.1, 4.4, 6 and 7 of the specification.

  A plaintext structure is a JSON-like value: null, an integer, a string, a list, or an
  object with string keys.
\<close>

datatype json = JNull | JInt int | JStr string | JArr "json list" | JObj "(string \<times> json) list"

subsection \<open>The canonical text form\<close>

text \<open>
  Modelled from the spec: "serializes the structure to a canonical text form" (4.1), the
  payloads being JSON text (6).  The text form is compact JSON; in a string the quote and
  the backslash are escaped by a backslash.  Bytes and characters are both \<open>char\<close>.
\<close>

definition digit_char :: "nat \<Rightarrow> char" where
  "digit_char d = char_of (48 + d)"

definition is_digit :: "char \<Rightarrow> bool" where
  "is_digit c = (48 \<le> (of_char c :: nat) \<and> (of_char c :: nat) \<le> 57)"

definition digit_val :: "char \<Rightarrow> nat" where
  "digit_val c = of_char c - 48"

function digits :: "nat \<Rightarrow> string" where
  "digits n = (if n < 10 then [digit_char n] else digits (n div 10) @ [digit_char (n mod 10)])"
  by pat_completeness auto
termination
  by (relation "measure (\<lambda>n. n)") auto

declare digits.simps [simp del]

definition number_of :: "string \<Rightarrow> nat" where
  "number_of ds = foldl (\<lambda>acc c. acc * 10 + digit_val c) 0 ds"

definition show_int :: "int \<Rightarrow> string" where
  "show_int i = (if i < 0 then CHR ''-'' # digits (nat (- i)) else digits (nat i))"

definition read_digits :: "string \<Rightarrow> (nat \<times> string) option" where
  "read_digits s =
     (if takeWhile is_digit s = [] then None
      else Some (number_of (takeWhile is_digit s), dropWhile is_digit s))"

definition read_int :: "string \<Rightarrow> (int \<times> string) option" where
  "read_int s =
     (case s of
        [] \<Rightarrow> None
      | c # cs \<Rightarrow>
          if c = CHR ''-'' then map_option (\<lambda>(n, r). (- int n, r)) (read_digits cs)
          else map_option (\<lambda>(n, r). (int n, r)) (read_digits s))"

definition escape :: "char \<Rightarrow> string" where
  "escape c = (if c = CHR 0x22 \<or> c = CHR 0x5C then [CHR 0x5C, c] else [c])"

definition quote :: "string \<Rightarrow> string" where
  "quote s = CHR 0x22 # concat (map escape s) @ [CHR 0x22]"

text \<open>\<open>read_string\<close> reads a string literal after its opening quote.\<close>

fun read_string :: "string \<Rightarrow> (string \<times> string) option" where
  "read_string [] = None"
| "read_string (c # cs) =
     (if c = CHR 0x22 then Some ([], cs)
      else if c = CHR 0x5C then
        (case cs of
           [] \<Rightarrow> None
         | e # cs' \<Rightarrow> map_option (\<lambda>(s, r). (e # s, r)) (read_string cs'))
      else map_option (\<lambda>(s, r). (c # s, r)) (read_string cs))"

fun commas :: "string list \<Rightarrow> string" where
  "commas [] = []"
| "commas [x] = x"
| "commas (x # y # ys) = x @ CHR '','' # commas (y # ys)"

fun dumps :: "json \<Rightarrow> string" where
  "dumps JNull = ''null''"
| "dumps (JInt i) = show_int i"
| "dumps (JStr s) = quote s"
| "dumps (JArr xs) = CHR ''['' # commas (map dumps xs) @ '']''"
| "dumps (JObj kvs) =
     CHR ''{'' # commas (map (\<lambda>(k, v). quote k @ CHR '':'' # dumps v) kvs) @ ''}''"

text \<open>
  The parser descends by recursion on a fuel argument, which bounds the nesting and the
  number of list elements read; \<open>loads\<close> gives it more fuel than the text has characters.
  It returns the value read and the rest of the text.
\<close>

fun parse_value :: "nat \<Rightarrow> string \<Rightarrow> (json \<times> string) option"
  and parse_elems :: "nat \<Rightarrow> string \<Rightarrow> (json list \<times> string) option"
  and parse_members :: "nat \<Rightarrow> string \<Rightarrow> ((string \<times> json) list \<times> string) option"
where
  "parse_value 0 s = None"
| "parse_value (Suc n) s =
     (case s of
        [] \<Rightarrow> None
      | c # cs \<Rightarrow>
          if c = CHR 0x22 then map_option (\<lambda>(x, r). (JStr x, r)) (read_string cs)
          else if c = CHR ''['' then
            (case cs of
               [] \<Rightarrow> None
             | d # ds \<Rightarrow>
                 if d = CHR '']'' then Some (JArr [], ds)
                 else map_option (\<lambda>(xs, r). (JArr xs, r)) (parse_elems n cs))
          else if c = CHR ''{'' then
            (case cs of
               [] \<Rightarrow> None
             | d # ds \<Rightarrow>
                 if d = CHR ''}'' then Some (JObj [], ds)
                 else map_option (\<lambda>(kvs, r). (JObj kvs, r)) (parse_members n cs))
          else if c = CHR ''n'' then
            (if take 3 cs = ''ull'' then Some (JNull, drop 3 cs) else None)
          else map_option (\<lambda>(i, r). (JInt i, r)) (read_int s))"
| "parse_elems 0 s = None"
| "parse_elems (Suc n) s =
     (case parse_value n s of
        None \<Rightarrow> None
      | Some (v, r) \<Rightarrow>
          (case r of
             [] \<Rightarrow> None
           | c # cs \<Rightarrow>
               if c = CHR '','' then map_option (\<lambda>(vs, r'). (v # vs, r')) (parse_elems n cs)
               else if c = CHR '']'' then Some ([v], cs)
               else None))"
| "parse_members 0 s = None"
| "parse_members (Suc n) s =
     (case s of
        [] \<Rightarrow> None
      | q # s' \<Rightarrow>
          if q \<noteq> CHR 0x22 then None
          else
            (case read_string s' of
               None \<Rightarrow> None
             | Some (k, r0) \<Rightarrow>
                 (case r0 of
                    [] \<Rightarrow> None
                  | c0 # r1 \<Rightarrow>
                      if c0 \<noteq> CHR '':'' then None
                      else
                        (case parse_value n r1 of
                           None \<Rightarrow> None
                         | Some (v, r) \<Rightarrow>
                             (case r of
                                [] \<Rightarrow> None
                              | c # cs \<Rightarrow>
                                  if c = CHR '','' then
                                    map_option (\<lambda>(m, r'). ((k, v) # m, r')) (parse_members n cs)
                                  else if c = CHR ''}'' then Some ([(k, v)], cs)
                                  else None)))))"

definition loads :: "string \<Rightarrow> json option" where
  "loads s =
     (case parse_value (Suc (length s)) s of
        None \<Rightarrow> None
      | Some (v, r) \<Rightarrow> if r = [] then Some v else None)"

text \<open>Two notions used in the proofs about the parser only.\<close>

definition stops :: "string \<Rightarrow> bool" where
  "stops r = (case r of [] \<Rightarrow> True | c # cs \<Rightarrow> \<not> is_digit c)"

definition member_text :: "string \<times> json \<Rightarrow> string" where
  "member_text kv = quote (fst kv) @ CHR '':'' # dumps (snd kv)"

subsection \<open>The text-safe encoding\<close>

text \<open>
  Modelled from the spec: "returns a text-safe (e.g., base64) encoding" (4.1); the \<open>pack\<close>
  field is "base64 cipher text" (6).  Three octets are four sextets; a last group of one
  or two octets is filled up with \<open>=\<close>.
\<close>

definition b64_char :: "nat \<Rightarrow> char" where
  "b64_char n =
     (if n < 26 then char_of (65 + n)
      else if n < 52 then char_of (71 + n)
      else if n < 62 then char_of (n - 4)
      else if n = 62 then CHR ''+''
      else CHR ''/'')"

definition b64_index :: "char \<Rightarrow> nat option" where
  "b64_index c =
     (let x = of_char c :: nat in
      if 65 \<le> x \<and> x \<le> 90 then Some (x - 65)
      else if 97 \<le> x \<and> x \<le> 122 then Some (x - 71)
      else if 48 \<le> x \<and> x \<le> 57 then Some (x + 4)
      else if x = 43 then Some 62
      else if x = 47 then Some 63
      else None)"

definition sextet1 :: "nat \<Rightarrow> nat" where "sextet1 x = x div 4"
definition sextet2 :: "nat \<Rightarrow> nat \<Rightarrow> nat" where "sextet2 x y = (x mod 4) * 16 + y div 16"
definition sextet3 :: "nat \<Rightarrow> nat \<Rightarrow> nat" where "sextet3 y z = (y mod 16) * 4 + z div 64"
definition sextet4 :: "nat \<Rightarrow> nat" where "sextet4 z = z mod 64"

definition octet1 :: "nat \<Rightarrow> nat \<Rightarrow> nat" where "octet1 a b = a * 4 + b div 16"
definition octet2 :: "nat \<Rightarrow> nat \<Rightarrow> nat" where "octet2 b c = (b mod 16) * 16 + c div 4"
definition octet3 :: "nat \<Rightarrow> nat \<Rightarrow> nat" where "octet3 c d = (c mod 4) * 64 + d"

fun b64encode :: "string \<Rightarrow> string" where
  "b64encode [] = []"
| "b64encode [a] =
     [b64_char (sextet1 (of_char a)), b64_char (sextet2 (of_char a) 0), CHR ''='', CHR ''='']"
| "b64encode [a, b] =
     [b64_char (sextet1 (of_char a)), b64_char (sextet2 (of_char a) (of_char b)),
      b64_char (sextet3 (of_char b) 0), CHR ''='']"
| "b64encode (a # b # c # rest) =
     b64_char (sextet1 (of_char a)) # b64_char (sextet2 (of_char a) (of_char b))
     # b64_char (sextet3 (of_char b) (of_char c)) # b64_char (sextet4 (of_char c))
     # b64encode rest"

fun b64decode :: "string \<Rightarrow> string option" where
  "b64decode [] = Some []"
| "b64decode (p # q # r # s # rest) =
     (case (b64_index p, b64_index q) of
        (Some a, Some b) \<Rightarrow>
          if rest = [] \<and> s = CHR ''='' then
            (if r = CHR ''='' then Some [char_of (octet1 a b)]
             else (case b64_index r of
                     Some c \<Rightarrow> Some [char_of (octet1 a b), char_of (octet2 b c)]
                   | None \<Rightarrow> None))
          else
            (case (b64_index r, b64_index s) of
               (Some c, Some d) \<Rightarrow>
                 map_option
                   (\<lambda>bs. char_of (octet1 a b) # char_of (octet2 b c) # char_of (octet3 c d) # bs)
                   (b64decode rest)
             | _ \<Rightarrow> None)
      | _ \<Rightarrow> None)"
| "b64decode _ = None"

subsection \<open>The block cipher and its mode\<close>

text \<open>
  Modelled from the spec: "the symmetric block cipher in a mode requiring no explicit
  initialization vector (fixed-key, stateless per call)" (4.1).  The spec names neither the
  cipher nor its block size, so both are parameters, as is the "fixed, publicly-known"
  generic key; \<open>cipher_ok\<close> is what makes the parameters a block cipher: on blocks,
  decryption undoes encryption under the same key.  The mode applies the cipher to each
  block on its own.  The spec speaks of padding that can be invalid without naming a
  scheme; the model pads a text to whole blocks with \<open>k\<close> bytes of value \<open>k\<close>.
\<close>

record crypto =
  block_size :: nat
  encrypt_block :: "string \<Rightarrow> string \<Rightarrow> string"
  decrypt_block :: "string \<Rightarrow> string \<Rightarrow> string"
  generic_key :: string

definition cipher_ok :: "crypto \<Rightarrow> bool" where
  "cipher_ok C =
     (0 < block_size C \<and> block_size C < 256 \<and>
      (\<forall>k b. length b = block_size C \<longrightarrow>
         length (encrypt_block C k b) = block_size C \<and>
         decrypt_block C k (encrypt_block C k b) = b))"

definition pad :: "nat \<Rightarrow> string \<Rightarrow> string" where
  "pad n s = s @ replicate (n - length s mod n) (char_of (n - length s mod n))"

definition unpad :: "nat \<Rightarrow> string \<Rightarrow> string option" where
  "unpad n s =
     (if s = [] then None
      else
        (let k = of_char (last s) :: nat in
         if k = 0 \<or> n < k \<or> length s < k then None
         else if drop (length s - k) s = replicate k (last s)
           then Some (take (length s - k) s)
           else None))"

function blocks :: "nat \<Rightarrow> string \<Rightarrow> string list" where
  "blocks n s = (if n = 0 \<or> s = [] then [] else take n s # blocks n (drop n s))"
  by pat_completeness auto
termination
  by (relation "measure (\<lambda>(n, s). length s)") auto

declare blocks.simps [simp del]

definition ecb :: "(string \<Rightarrow> string) \<Rightarrow> nat \<Rightarrow> string \<Rightarrow> string" where
  "ecb f n s = concat (map f (blocks n s))"

subsection \<open>Encrypting and decrypting a payload\<close>

text \<open>
  Modelled from the spec: \<open>encrypt(plaintext-structure, key)\<close> and
  \<open>decrypt(ciphertext-text, key)\<close> of section 4.1.  Decryption "fails with a
  DecryptionError if the ciphertext is malformed, padding is invalid, or the result is not
  parseable as the expected structure".
\<close>

definition encrypt_payload :: "crypto \<Rightarrow> json \<Rightarrow> string \<Rightarrow> string" where
  "encrypt_payload C p key =
     b64encode (ecb (encrypt_block C key) (block_size C) (pad (block_size C) (dumps p)))"

definition decrypt_payload :: "crypto \<Rightarrow> string \<Rightarrow> string \<Rightarrow> error + json" where
  "decrypt_payload C ciphertext key =
     (case b64decode ciphertext of
        None \<Rightarrow> Inl DecryptionError
      | Some bytes \<Rightarrow>
          if bytes = [] \<or> length bytes mod block_size C \<noteq> 0 then Inl DecryptionError
          else
            (case unpad (block_size C) (ecb (decrypt_block C key) (block_size C) bytes) of
               None \<Rightarrow> Inl DecryptionError
             | Some plain \<Rightarrow>
                 (case loads plain of
                    None \<Rightarrow> Inl DecryptionError
                  | Some p \<Rightarrow> Inr p)))"

section \<open>The session protocol (spec section 4.4)\<close>

text \<open>
  Modelled from the spec: \<open>DeviceInfo\<close> (3) with its address and hardware identifier (the
  optional descriptive fields play no part in a session); a packet (3, 6) by its \<open>pack\<close>
  field, the envelope's routing fields being constants that no session operation reads;
  and what one "send followed by one timeout-bound recv" (4.4) can observe: nothing within
  the window, a transport error, or one whole datagram.  The network is a parameter: it
  says what comes back from a device for a packet sent to it.
\<close>

record DeviceInfo =
  host :: string
  port :: nat
  mac :: string

datatype packet = Packet (pack: string)

datatype reply = No_reply | Transport_failure | Reply packet

type_synonym network = "DeviceInfo \<Rightarrow> packet \<Rightarrow> reply"

text \<open>
  Modelled from the spec: the error kinds of section 7.  A missing response is the
  \<open>TimeoutError\<close> of sections 7 and 8 (section 4.4 calls it \<open>BindingTimeoutError\<close> for
  \<open>bind\<close>).
\<close>

definition exchange :: "network \<Rightarrow> DeviceInfo \<Rightarrow> packet \<Rightarrow> error + packet" where
  "exchange nw di request =
     (case nw di request of
        No_reply \<Rightarrow> Inl TimeoutError
      | Transport_failure \<Rightarrow> Inl TransportError
      | Reply r \<Rightarrow> Inr r)"

text \<open>Modelled from the spec: reading the fields of a decrypted payload (6).\<close>

fun obj_get :: "json \<Rightarrow> string \<Rightarrow> json option" where
  "obj_get (JObj kvs) k = map_of kvs k"
| "obj_get _ k = None"

fun str_of :: "json \<Rightarrow> string option" where
  "str_of (JStr s) = Some s"
| "str_of _ = None"

fun val_of :: "json \<Rightarrow> pyval option" where
  "val_of JNull = Some PNone"
| "val_of (JInt i) = Some (PInt i)"
| "val_of (JStr s) = Some (PStr s)"
| "val_of _ = None"

fun json_of :: "pyval \<Rightarrow> json" where
  "json_of PNone = JNull"
| "json_of (PInt i) = JInt i"
| "json_of (PStr s) = JStr s"

definition names_field :: "json \<Rightarrow> string \<Rightarrow> string list option" where
  "names_field p k =
     (case obj_get p k of Some (JArr xs) \<Rightarrow> those (map str_of xs) | _ \<Rightarrow> None)"

definition values_field :: "json \<Rightarrow> string \<Rightarrow> pyval list option" where
  "values_field p k =
     (case obj_get p k of Some (JArr xs) \<Rightarrow> those (map val_of xs) | _ \<Rightarrow> None)"

text \<open>
  Modelled from the spec: a PropertyMap is the name list and the value list "zipped into a
  mapping by position", and the two lists "must be equal length ... or the protocol result
  is invalid" (3); mismatched lengths are a \<open>ProtocolError\<close> (7).
\<close>

definition dict_of_pairs :: "(string \<times> pyval) list \<Rightarrow> pydict" where
  "dict_of_pairs ps = foldl (\<lambda>m (k, v). dict_set m k v) [] ps"

definition zip_props :: "string list \<Rightarrow> pyval list \<Rightarrow> error + pydict" where
  "zip_props ns vs =
     (if length ns \<noteq> length vs then Inl ProtocolError
      else Inr (dict_of_pairs (zip ns vs)))"

text \<open>
  Modelled from the spec: the request payloads of section 6.
\<close>

definition bind_request :: "DeviceInfo \<Rightarrow> json" where
  "bind_request di = JObj [(''mac'', JStr (mac di)), (''t'', JStr ''bind'')]"

definition status_request :: "string list \<Rightarrow> DeviceInfo \<Rightarrow> json" where
  "status_request ns di =
     JObj [(''cols'', JArr (map JStr ns)), (''mac'', JStr (mac di)), (''t'', JStr ''status'')]"

definition cmd_request :: "pydict \<Rightarrow> json" where
  "cmd_request props =
     JObj [(''opt'', JArr (map (\<lambda>kv. JStr (fst kv)) props)),
           (''p'', JArr (map (\<lambda>kv. json_of (snd kv)) props)),
           (''t'', JStr ''cmd'')]"

text \<open>
  Modelled from the spec: \<open>bind(device, key=None)\<close> of section 4.4.  With a key supplied no
  network call occurs and the key is returned verbatim.  Otherwise the bind packet is
  encrypted with the generic key and sent, and the response must decrypt, with the generic
  key, to a \<open>bindok\<close> payload that carries the key as a string; any other payload is a
  \<open>ProtocolError\<close>.
\<close>

definition bind_device :: "crypto \<Rightarrow> network \<Rightarrow> DeviceInfo \<Rightarrow> string option \<Rightarrow> error + string" where
  "bind_device C nw di key =
     (case key of
        Some k \<Rightarrow> Inr k
      | None \<Rightarrow>
          (case exchange nw di (Packet (encrypt_payload C (bind_request di) (generic_key C))) of
             Inl e \<Rightarrow> Inl e
           | Inr r \<Rightarrow>
               (case decrypt_payload C (pack r) (generic_key C) of
                  Inl e \<Rightarrow> Inl e
                | Inr p \<Rightarrow>
                    if obj_get p ''t'' = Some (JStr ''bindok'') then
                      (case obj_get p ''key'' of
                         Some (JStr k) \<Rightarrow> Inr k
                       | _ \<Rightarrow> Inl ProtocolError)
                    else Inl ProtocolError)))"

text \<open>
  Modelled from the spec: \<open>request_state(property-names, device, key)\<close> of section 4.4:
  "await a dat response, decrypt with key, and zip the response's name list and value list
  (by position) into a PropertyMap.  Fails if the lists differ in length or the response
  type is wrong."  Section 6 gives the status response as \<open>{"cols": [names], "dat":
  [values]}\<close>, with no \<open>t\<close> among its fields, and so does the example of section 8.  So a
  response is of the expected type when it has a \<open>cols\<close> list of strings and a \<open>dat\<close> list
  of values, and its \<open>t\<close>, if it carries one, is \<open>dat\<close>.
\<close>

definition type_ok :: "json \<Rightarrow> string \<Rightarrow> bool" where
  "type_ok p t = (case obj_get p ''t'' of None \<Rightarrow> True | Some x \<Rightarrow> x = JStr t)"

definition read_props :: "json \<Rightarrow> string \<Rightarrow> string \<Rightarrow> error + pydict" where
  "read_props p names_key values_key =
     (case (names_field p names_key, values_field p values_key) of
        (Some ns, Some vs) \<Rightarrow> zip_props ns vs
      | _ \<Rightarrow> Inl ProtocolError)"

definition request_state ::
  "crypto \<Rightarrow> network \<Rightarrow> string list \<Rightarrow> DeviceInfo \<Rightarrow> string \<Rightarrow> error + pydict" where
  "request_state C nw ns di key =
     (case exchange nw di (Packet (encrypt_payload C (status_request ns di) key)) of
        Inl e \<Rightarrow> Inl e
      | Inr r \<Rightarrow>
          (case decrypt_payload C (pack r) key of
             Inl e \<Rightarrow> Inl e
           | Inr p \<Rightarrow>
               if type_ok p ''dat'' then read_props p ''cols'' ''dat''
               else Inl ProtocolError))"

text \<open>
  Modelled from the spec: \<open>send_state(property-map, device, key)\<close> of section 4.4: "await
  acknowledgment, decrypt, and zip the acknowledgment's echoed option/value lists into the
  returned PropertyMap".  The spec names no command type for the acknowledgment, which
  section 6 gives as \<open>{"opt": [names], "val": [values]}\<close>; a response without these two
  lists, or with lists of different lengths, is a \<open>ProtocolError\<close> (7).
\<close>

definition send_state ::
  "crypto \<Rightarrow> network \<Rightarrow> pydict \<Rightarrow> DeviceInfo \<Rightarrow> string \<Rightarrow> error + pydict" where
  "send_state C nw props di key =
     (case exchange nw di (Packet (encrypt_payload C (cmd_request props) key)) of
        Inl e \<Rightarrow> Inl e
      | Inr r \<Rightarrow>
          (case decrypt_payload C (pack r) key of
             Inl e \<Rightarrow> Inl e
           | Inr p \<Rightarrow> read_props p ''opt'' ''val''))"

section \<open>Stand-ins for the cipher and the devices of the protocol tests\<close>

text \<open>
  A block cipher to run the codec with: blocks of 16 bytes, each byte shifted by the
  length of the key.  The responders are in the manner of \<open>tests/test_network.py\<close>:
  \<open>replying\<close> answers every request with one fixed payload, encrypted (a \<open>bindok\<close> with the
  key \<open>acbd1234\<close>, a status response with two properties, a status response whose lists
  differ in length); \<open>echo_responder\<close> acknowledges a command by echoing its names and
  values; \<open>nobody\<close> never answers.
\<close>

definition shift_byte :: "nat \<Rightarrow> char \<Rightarrow> char" where
  "shift_byte n c = char_of (of_char c + n :: nat)"

definition shifting :: crypto where
  "shifting =
     \<lparr>block_size = 16,
      encrypt_block = (\<lambda>k b. map (shift_byte (length k)) b),
      decrypt_block = (\<lambda>k b. map (shift_byte (256 - length k mod 256)) b),
      generic_key = ''a3K8Bx%2r8Y7#xDh''\<rparr>"

definition mock_device :: DeviceInfo where
  "mock_device = \<lparr>host = ''127.0.0.1'', port = 7000, mac = ''aabbcc112233''\<rparr>"

definition replying :: "crypto \<Rightarrow> json \<Rightarrow> string \<Rightarrow> network" where
  "replying C payload key di request = Reply (Packet (encrypt_payload C payload key))"

definition bindok_payload :: json where
  "bindok_payload = JObj [(''t'', JStr ''bindok''), (''key'', JStr ''acbd1234'')]"

definition status_payload :: json where
  "status_payload =
     JObj [(''cols'', JArr [JStr ''prop-a'', JStr ''prop-b'']),
           (''dat'', JArr [JStr ''val-a'', JStr ''val-b''])]"

definition short_payload :: json where
  "short_payload =
     JObj [(''cols'', JArr [JStr ''prop-a'', JStr ''prop-b'']),
           (''dat'', JArr [JStr ''val-a''])]"

definition ack_of :: "json \<Rightarrow> json option" where
  "ack_of p =
     (case (obj_get p ''opt'', obj_get p ''p'') of
        (Some names, Some vals) \<Rightarrow> Some (JObj [(''opt'', names), (''val'', vals)])
      | _ \<Rightarrow> None)"

definition echo_responder :: "crypto \<Rightarrow> string \<Rightarrow> network" where
  "echo_responder C key di request =
     (case decrypt_payload C (pack request) key of
        Inl e \<Rightarrow> No_reply
      | Inr p \<Rightarrow>
          (case ack_of p of
             None \<Rightarrow> No_reply
           | Some ack \<Rightarrow> Reply (Packet (encrypt_payload C ack key))))"

definition nobody :: network where
  "nobody di request = No_reply"

section \<open>Facts about dictionaries\<close>

lemma dict_get_empty: "dict_get [] k = PNone"
  by (simp add: dict_get_def)

lemma dict_get_set_same: "dict_get (dict_set m k v) k = v"
  by (simp add: dict_get_def dict_set_def update_conv')

lemma dict_get_set_other: "k' \<noteq> k \<Longrightarrow> dict_get (dict_set m k v) k' = dict_get m k'"
  by (simp add: dict_get_def dict_set_def update_conv')

lemma dict_set_nonempty: "dict_set m k v \<noteq> []"
  by (simp add: dict_set_def)

section \<open>The cache as \<open>get_property\<close> reads it\<close>

lemma get_property_cached: "get_property nh d name = dict_get (cached d) (Props_value nh name)"
  by (auto simp: get_property_def cached_def dict_truthy_def dict_get_empty split: option.splits)

lemma cached_ensure_properties: "cached (ensure_properties d) = cached d"
  by (auto simp: ensure_properties_def cached_def dict_truthy_def split: option.splits)

lemma ensure_properties_fields:
  "device_info (ensure_properties d) = device_info d"
  "device_key (ensure_properties d) = device_key d"
  by (simp_all add: ensure_properties_def)

lemma ensure_properties_bound: "dict_truthy (properties d) \<Longrightarrow> ensure_properties d = d"
  by (simp add: ensure_properties_def)

lemma cached_store_property: "cached (store_property d k v) = dict_set (cached d) k v"
  by (simp add: store_property_def cached_def)

lemma store_property_fields:
  "device_info (store_property d k v) = device_info d"
  "device_key (store_property d k v) = device_key d"
  by (simp_all add: store_property_def)

text \<open>The two ways out of \<open>set_property\<close>, by whether the cached value equals the new one.\<close>

lemma set_property_unchanged:
  "get_property nh d name = v \<Longrightarrow>
   set_property nh d name v = \<lparr>result = Inr (), dev = ensure_properties d, net = []\<rparr>"
  by (simp add: set_property_def get_property_cached cached_ensure_properties)

lemma set_property_changed:
  "get_property nh d name \<noteq> v \<Longrightarrow>
   set_property nh d name v =
     \<lparr>result =
        (case nh_send_state nh [(Props_value nh name, v)] (device_info d) (device_key d) of
           Inl e \<Rightarrow> Inl e | Inr r \<Rightarrow> Inr ()),
      dev = store_property (ensure_properties d) (Props_value nh name) v,
      net = [Send_state [(Props_value nh name, v)] (device_info d) (device_key d)]\<rparr>"
  by (simp add: set_property_def get_property_cached cached_ensure_properties Let_def
      store_property_fields ensure_properties_fields split: sum.splits)

section \<open>Operations that need a device key\<close>

lemma update_state_not_bound:
  "\<not> str_truthy (device_key d) \<Longrightarrow>
   update_state nh d = \<lparr>result = Inl DeviceNotBoundError, dev = d, net = []\<rparr>"
  by (simp add: update_state_def)

lemma update_state_fresh:
  "update_state nh (Device info) =
     \<lparr>result = Inl DeviceNotBoundError, dev = Device info, net = []\<rparr>"
  by (simp add: update_state_def Device_def str_truthy_def)

text \<open>
  Claim C5 says that every operation needing a device key raises the not-bound error
  before any network access when \<open>device_key\<close> is \<open>None\<close>, \<open>set_property\<close> included.
  \<open>update_state\<close> does (the two lemmas above); \<open>set_property\<close> has no such check.  On a
  freshly constructed device, setting any property to any integer stores the value and
  calls \<open>send_state\<close> with the key \<open>None\<close>; what the method then returns or raises is
  whatever \<open>send_state\<close> does with that call.
\<close>

theorem set_property_unbound_calls_send_state:
  "net (set_property nh (Device info) name (PInt i)) =
     [Send_state [(Props_value nh name, PInt i)] info None]
   \<and> result (set_property nh (Device info) name (PInt i)) =
       (case nh_send_state nh [(Props_value nh name, PInt i)] info None of
          Inl e \<Rightarrow> Inl e | Inr r \<Rightarrow> Inr ())
   \<and> properties (dev (set_property nh (Device info) name (PInt i))) =
       Some [(Props_value nh name, PInt i)]"
proof -
  have fresh: "get_property nh (Device info) name \<noteq> PInt i"
    by (simp add: get_property_def Device_def dict_truthy_def)
  have stored: "store_property (ensure_properties (Device info)) (Props_value nh name) (PInt i)
      = \<lparr>device_info = info, device_key = None,
         properties = Some [(Props_value nh name, PInt i)]\<rparr>"
    by (simp add: store_property_def ensure_properties_def Device_def dict_truthy_def
        cached_def dict_set_def)
  show ?thesis
    by (simp add: set_property_changed [OF fresh] stored) (simp add: Device_def)
qed

section \<open>Binding with a key\<close>

lemma bind_net: "net (bind nh d key) = (if str_truthy key then [] else [Bind_device (device_info d)])"
  by (simp add: bind_def split: sum.splits)

text \<open>
  Claim C6, as stated, fails for the empty string: \<open>bind\<close> tests the truth value of
  \<open>key\<close>, so a supplied key that is empty takes the network branch, and the device key
  becomes whatever the bind exchange gives.
\<close>

theorem bind_empty_key_counterexample:
  "net (bind answering (Device ''192.168.1.29'') (Some '''')) = [Bind_device ''192.168.1.29'']
   \<and> net (bind answering (Device ''192.168.1.29'') (Some '''')) \<noteq> []
   \<and> device_key (dev (bind answering (Device ''192.168.1.29'') (Some ''''))) = Some ''acbd1234''
   \<and> device_key (dev (bind answering (Device ''192.168.1.29'') (Some ''''))) \<noteq> Some ''''"
  by (simp add: bind_def answering_def Device_def str_truthy_def)

text \<open>
  Claim C6, amended: for every device and every non-empty supplied key, \<open>bind\<close> makes no
  network call, returns, and leaves the device as it was but for the device key, which is
  the supplied key verbatim; and a call of \<open>bind\<close> that reaches the network was given no
  key or the empty key.
\<close>

theorem bind_supplied_key:
  "(k \<noteq> [] \<longrightarrow>
      bind nh d (Some k) = \<lparr>result = Inr (), dev = d\<lparr>device_key := Some k\<rparr>, net = []\<rparr>)
   \<and> (net (bind nh d key) \<noteq> [] \<longrightarrow> key = None \<or> key = Some [])"
  by (auto simp: bind_def str_truthy_def split: option.splits)

theorem bind_supplied_key_witness:
  "''acbd1234'' \<noteq> []
   \<and> bind answering (Device ''192.168.1.29'') (Some ''acbd1234'') =
       \<lparr>result = Inr (),
        dev = \<lparr>device_info = ''192.168.1.29'', device_key = Some ''acbd1234'', properties = None\<rparr>,
        net = []\<rparr>
   \<and> net (bind answering (Device ''192.168.1.29'') None) \<noteq> []"
  using bind_supplied_key [of "''acbd1234''" answering "Device ''192.168.1.29''" None]
  by (simp add: Device_def bind_net str_truthy_def)

section \<open>Refreshing the cache\<close>

lemma update_state_failure:
  "str_truthy (device_key d) \<Longrightarrow>
   nh_request_state nh (map (Props_value nh) (Props_members nh)) (device_info d) (device_key d)
     = Inl e \<Longrightarrow>
   result (update_state nh d) = Inl e \<and> dev (update_state nh d) = d"
  by (simp add: update_state_def)

text \<open>
  Claim C7: on a bound device (its key is a non-empty string), \<open>update_state\<close> makes one
  call of \<open>request_state\<close>, for the values of all members of \<open>Props\<close> in their order, with
  the device's info and key; when that call returns the dict \<open>m\<close>, \<open>m\<close> becomes the cache,
  and \<open>get_property\<close> then gives for every name what \<open>m\<close> holds for it (\<open>None\<close> for a name
  the answer left out).
\<close>

theorem update_state_replaces_cache:
  assumes "str_truthy (device_key d)"
    and "nh_request_state nh (map (Props_value nh) (Props_members nh))
           (device_info d) (device_key d) = Inr m"
  shows "net (update_state nh d) =
           [Request_state (map (Props_value nh) (Props_members nh)) (device_info d) (device_key d)]
         \<and> result (update_state nh d) = Inr ()
         \<and> dev (update_state nh d) = d\<lparr>properties := Some m\<rparr>
         \<and> (\<forall>name. get_property nh (dev (update_state nh d)) name
               = dict_get m (Props_value nh name))"
proof -
  have run: "update_state nh d =
      \<lparr>result = Inr (), dev = d\<lparr>properties := Some m\<rparr>,
       net = [Request_state (map (Props_value nh) (Props_members nh))
                (device_info d) (device_key d)]\<rparr>"
    using assms by (simp add: update_state_def)
  have "get_property nh (d\<lparr>properties := Some m\<rparr>) name = dict_get m (Props_value nh name)"
    for name
    by (simp add: get_property_cached cached_def)
  with run show ?thesis by simp
qed

theorem update_state_replaces_cache_witness:
  "str_truthy (device_key (dev (bind answering (Device ''192.168.1.29'') None)))
   \<and> net (update_state answering (dev (bind answering (Device ''192.168.1.29'') None))) =
       [Request_state
          [''Pow'', ''Mod'', ''SetTem'', ''TemUn'', ''WdSpd'', ''Air'', ''Blo'', ''Health'',
           ''SwhSlp'', ''Lig'', ''SwingLfRig'', ''SwUpDn'', ''Quiet'', ''Tur'', ''StHt'', ''SvSt'']
          ''192.168.1.29'' (Some ''acbd1234'')]
   \<and> get_property answering
        (dev (update_state answering (dev (bind answering (Device ''192.168.1.29'') None)))) MODE
       = PInt 1"
proof -
  let ?d = "dev (bind answering (Device ''192.168.1.29'') None)"
  have d: "?d = \<lparr>device_info = ''192.168.1.29'', device_key = Some ''acbd1234'', properties = None\<rparr>"
    by (simp add: bind_def answering_def Device_def str_truthy_def)
  have bound: "str_truthy (device_key ?d)"
    by (simp add: d str_truthy_def)
  have answer: "nh_request_state answering (map (Props_value answering) (Props_members answering))
       (device_info ?d) (device_key ?d)
     = Inr (map (\<lambda>n. (n, PInt 1)) (map sample_value sample_members))"
    by (simp add: answering_def)
  note fact = update_state_replaces_cache [OF bound answer]
  from fact have calls: "net (update_state answering ?d) =
      [Request_state (map (Props_value answering) (Props_members answering))
         (device_info ?d) (device_key ?d)]"
    by blast
  from fact have "get_property answering (dev (update_state answering ?d)) MODE =
      dict_get (map (\<lambda>n. (n, PInt 1)) (map sample_value sample_members))
        (Props_value answering MODE)"
    by blast
  then have mode: "get_property answering (dev (update_state answering ?d)) MODE = PInt 1"
    by (simp add: answering_def sample_members_def dict_get_def)
  from calls have "net (update_state answering ?d) =
       [Request_state
          [''Pow'', ''Mod'', ''SetTem'', ''TemUn'', ''WdSpd'', ''Air'', ''Blo'', ''Health'',
           ''SwhSlp'', ''Lig'', ''SwingLfRig'', ''SwUpDn'', ''Quiet'', ''Tur'', ''StHt'', ''SvSt'']
          ''192.168.1.29'' (Some ''acbd1234'')]"
    by (simp add: d) (simp add: answering_def sample_members_def)
  with bound mode show ?thesis by blast
qed

section \<open>Setting one property\<close>

lemma get_property_falsy: "\<not> dict_truthy (properties d) \<Longrightarrow> get_property nh d name = PNone"
  by (simp add: get_property_def)

text \<open>
  Claim C8.  Write \<open>R\<close> for the outcome of \<open>set_property(n, v)\<close> on the device \<open>d\<close>.  When
  the cached value for \<open>n\<close> equals \<open>v\<close>, \<open>R\<close> returns with no network call and the same
  cache contents, and the device object is unchanged altogether unless \<open>v\<close> is \<open>None\<close>
  (then a cache that was \<open>None\<close> is an empty dict afterwards).  Otherwise the cache
  afterwards is the old one with \<open>v\<close> stored under \<open>n\<close>, and exactly one network call was
  made: \<open>send_state\<close> with the one-entry dict \<open>{n: v}\<close>, the device's info and its key.
\<close>

theorem set_property_skips_or_sends:
  "(get_property nh d name = v \<longrightarrow>
      result (set_property nh d name v) = Inr ()
      \<and> net (set_property nh d name v) = []
      \<and> cached (dev (set_property nh d name v)) = cached d
      \<and> (v \<noteq> PNone \<longrightarrow> dev (set_property nh d name v) = d))
   \<and> (get_property nh d name \<noteq> v \<longrightarrow>
      net (set_property nh d name v) =
        [Send_state [(Props_value nh name, v)] (device_info d) (device_key d)]
      \<and> cached (dev (set_property nh d name v)) = dict_set (cached d) (Props_value nh name) v
      \<and> get_property nh (dev (set_property nh d name v)) name = v)"
proof (intro conjI impI)
  assume same: "get_property nh d name = v"
  note run = set_property_unchanged [OF same]
  show "result (set_property nh d name v) = Inr ()"
    and "net (set_property nh d name v) = []"
    by (simp_all add: run)
  show "cached (dev (set_property nh d name v)) = cached d"
    by (simp add: run cached_ensure_properties)
  assume "v \<noteq> PNone"
  with same have "dict_truthy (properties d)"
    using get_property_falsy [of d nh name] by auto
  then show "dev (set_property nh d name v) = d"
    by (simp add: run ensure_properties_bound)
next
  assume differs: "get_property nh d name \<noteq> v"
  note run = set_property_changed [OF differs]
  show "net (set_property nh d name v) =
      [Send_state [(Props_value nh name, v)] (device_info d) (device_key d)]"
    by (simp add: run)
  show "cached (dev (set_property nh d name v)) = dict_set (cached d) (Props_value nh name) v"
    by (simp add: run cached_store_property cached_ensure_properties)
  then show "get_property nh (dev (set_property nh d name v)) name = v"
    by (simp add: get_property_cached dict_get_set_same)
qed

theorem set_property_skips_or_sends_witness:
  "get_property answering living_room MODE = PInt 1
   \<and> net (set_property answering living_room MODE (PInt 1)) = []
   \<and> dev (set_property answering living_room MODE (PInt 1)) = living_room
   \<and> get_property answering living_room POWER \<noteq> PInt 1
   \<and> net (set_property answering living_room POWER (PInt 1)) =
       [Send_state [(''Pow'', PInt 1)] ''192.168.1.29'' (Some ''acbd1234'')]
   \<and> cached (dev (set_property answering living_room POWER (PInt 1))) =
       [(''Pow'', PInt 1), (''Mod'', PInt 1)]"
proof -
  have mode: "get_property answering living_room MODE = PInt 1"
    and power: "get_property answering living_room POWER \<noteq> PInt 1"
    by (simp_all add: get_property_def living_room_def answering_def dict_truthy_def dict_get_def)
  have old: "dict_set (cached living_room) ''Pow'' (PInt 1) =
      [(''Pow'', PInt 1), (''Mod'', PInt 1)]"
    by (simp add: cached_def living_room_def dict_set_def)
  have info: "device_info living_room = ''192.168.1.29''"
    "device_key living_room = Some ''acbd1234''"
    "Props_value answering POWER = ''Pow''"
    by (simp_all add: living_room_def answering_def)
  show ?thesis
    using set_property_skips_or_sends [of answering living_room MODE "PInt 1"]
      set_property_skips_or_sends [of answering living_room POWER "PInt 1"]
      mode power
    by (simp add: old info)
qed

text \<open>
  Claim C9.  \<open>set_property(n, v)\<close> leaves every cache entry under a key other than \<open>n\<close>'s as
  it was (present with the same value, or absent), leaves the device's info and key alone,
  and afterwards the cache holds \<open>v\<close> for \<open>n\<close>.  The assignment comes before the call of
  \<open>send_state\<close>: when the cached value differed and \<open>send_state\<close> raises \<open>e\<close>, the method
  raises \<open>e\<close> and the device is the one with \<open>v\<close> already stored.
\<close>

theorem set_property_frame:
  "(\<forall>k. k \<noteq> Props_value nh name \<longrightarrow>
       map_of (cached (dev (set_property nh d name v))) k = map_of (cached d) k)
   \<and> get_property nh (dev (set_property nh d name v)) name = v
   \<and> device_info (dev (set_property nh d name v)) = device_info d
   \<and> device_key (dev (set_property nh d name v)) = device_key d
   \<and> (get_property nh d name \<noteq> v
        \<and> nh_send_state nh [(Props_value nh name, v)] (device_info d) (device_key d) = Inl e
      \<longrightarrow> result (set_property nh d name v) = Inl e
          \<and> dev (set_property nh d name v) =
              store_property (ensure_properties d) (Props_value nh name) v
          \<and> get_property nh (dev (set_property nh d name v)) name = v
          \<and> (\<forall>k. k \<noteq> Props_value nh name \<longrightarrow>
                map_of (cached (dev (set_property nh d name v))) k = map_of (cached d) k))"
proof (cases "get_property nh d name = v")
  case True
  note run = set_property_unchanged [OF True]
  have "get_property nh (ensure_properties d) name = v"
    using True by (simp add: get_property_cached cached_ensure_properties)
  then show ?thesis
    using True by (simp add: run cached_ensure_properties ensure_properties_fields)
next
  case False
  note run = set_property_changed [OF False]
  have frame: "map_of (cached (dev (set_property nh d name v))) k = map_of (cached d) k"
    if "k \<noteq> Props_value nh name" for k
    using that
    by (simp add: run cached_store_property cached_ensure_properties dict_set_def update_conv')
  have new: "get_property nh (dev (set_property nh d name v)) name = v"
    by (simp add: run get_property_cached cached_store_property dict_get_set_same)
  have fields: "device_info (dev (set_property nh d name v)) = device_info d"
    "device_key (dev (set_property nh d name v)) = device_key d"
    by (simp_all add: run store_property_fields ensure_properties_fields)
  have raised: "result (set_property nh d name v) = Inl e"
    if "nh_send_state nh [(Props_value nh name, v)] (device_info d) (device_key d) = Inl e"
    using that by (simp add: run)
  have after: "dev (set_property nh d name v) =
      store_property (ensure_properties d) (Props_value nh name) v"
    by (simp add: run)
  from frame new fields raised after show ?thesis by blast
qed

theorem set_property_frame_witness:
  "''Mod'' \<noteq> Props_value silent POWER
   \<and> get_property silent living_room POWER \<noteq> PInt 1
   \<and> nh_send_state silent [(Props_value silent POWER, PInt 1)]
        (device_info living_room) (device_key living_room) = Inl TimeoutError
   \<and> result (set_property silent living_room POWER (PInt 1)) = Inl TimeoutError
   \<and> get_property silent (dev (set_property silent living_room POWER (PInt 1))) POWER = PInt 1
   \<and> map_of (cached (dev (set_property silent living_room POWER (PInt 1)))) ''Mod''
       = Some (PInt 1)"
proof -
  have other: "''Mod'' \<noteq> Props_value silent POWER"
    by (simp add: silent_def)
  have power: "get_property silent living_room POWER \<noteq> PInt 1"
    by (simp add: get_property_def living_room_def silent_def dict_truthy_def dict_get_def)
  have fails: "nh_send_state silent [(Props_value silent POWER, PInt 1)]
      (device_info living_room) (device_key living_room) = Inl TimeoutError"
    by (simp add: silent_def)
  have old: "map_of (cached living_room) ''Mod'' = Some (PInt 1)"
    by (simp add: cached_def living_room_def)
  note fact = set_property_frame [of silent POWER living_room "PInt 1" TimeoutError]
  from fact other old
  have kept: "map_of (cached (dev (set_property silent living_room POWER (PInt 1)))) ''Mod''
      = Some (PInt 1)"
    by metis
  from fact power fails
  have "result (set_property silent living_room POWER (PInt 1)) = Inl TimeoutError"
    and "get_property silent (dev (set_property silent living_room POWER (PInt 1))) POWER = PInt 1"
    by blast+
  with other power fails kept show ?thesis by blast
qed

section \<open>A device that has fetched nothing yet\<close>

lemma get_property_no_cache: "properties d = None \<Longrightarrow> get_property nh d name = PNone"
  by (simp add: get_property_def dict_truthy_def)

lemma bind_keeps_properties: "properties (dev (bind nh d key)) = properties d"
  by (simp add: bind_def split: sum.splits)

text \<open>
  Claim C10.  On a freshly constructed device \<open>get_property\<close> gives \<open>None\<close> for every
  name.  So each of the ten accessors that apply \<open>bool\<close> reads \<open>False\<close>, and each of the six
  accessors that apply \<open>int\<close> raises \<open>TypeError\<close>, whatever Python's reading of strings is.
\<close>

theorem fresh_device_accessors:
  "get_property nh (Device info) name = PNone
   \<and> power_get nh (Device info) = False
   \<and> fresh_air nh (Device info) = False
   \<and> xfan nh (Device info) = False
   \<and> anion nh (Device info) = False
   \<and> sleep nh (Device info) = False
   \<and> light nh (Device info) = False
   \<and> quiet nh (Device info) = False
   \<and> turbo nh (Device info) = False
   \<and> steady_heat nh (Device info) = False
   \<and> power_save nh (Device info) = False
   \<and> mode lit nh (Device info) = Inl TypeError
   \<and> target_temperature lit nh (Device info) = Inl TypeError
   \<and> temperature_units lit nh (Device info) = Inl TypeError
   \<and> fan_speed lit nh (Device info) = Inl TypeError
   \<and> horizontal_swing lit nh (Device info) = Inl TypeError
   \<and> vertical_swing lit nh (Device info) = Inl TypeError"
proof -
  have none: "get_property nh (Device info) p = PNone" for p
    by (rule get_property_no_cache) (simp add: Device_def)
  show ?thesis
    by (simp add: none power_get_def fresh_air_def xfan_def anion_def sleep_def light_def
        quiet_def turbo_def steady_heat_def power_save_def mode_def target_temperature_def
        temperature_units_def fan_speed_def horizontal_swing_def vertical_swing_def)
qed

section \<open>The text form can be read back\<close>

lemma digit_char_digit: "d < 10 \<Longrightarrow> is_digit (digit_char d)"
  by (simp add: is_digit_def digit_char_def)

lemma digit_val_char: "d < 10 \<Longrightarrow> digit_val (digit_char d) = d"
  by (simp add: digit_val_def digit_char_def)

lemma digits_all: "c \<in> set (digits n) \<Longrightarrow> is_digit c"
proof (induction n arbitrary: c rule: digits.induct)
  case (1 n)
  show ?case
  proof (cases "n < 10")
    case True
    with 1(2) show ?thesis
      by (subst (asm) digits.simps) (simp add: digit_char_digit)
  next
    case False
    from 1(2) have "c \<in> set (digits (n div 10)) \<or> c = digit_char (n mod 10)"
      by (subst (asm) digits.simps) (auto simp: False)
    with 1(1) [OF False] show ?thesis
      by (auto simp: digit_char_digit)
  qed
qed

lemma digits_nonempty: "digits n \<noteq> []"
  by (subst digits.simps) simp

lemma number_of_snoc: "number_of (ds @ [c]) = number_of ds * 10 + digit_val c"
  by (simp add: number_of_def)

lemma number_of_digits: "number_of (digits n) = n"
proof (induction n rule: digits.induct)
  case (1 n)
  show ?case
  proof (cases "n < 10")
    case True
    then show ?thesis
      by (subst digits.simps) (simp add: number_of_def digit_val_char)
  next
    case False
    have "number_of (digits n) = number_of (digits (n div 10)) * 10 + digit_val (digit_char (n mod 10))"
      by (subst digits.simps) (simp add: False number_of_snoc)
    also have "\<dots> = (n div 10) * 10 + n mod 10"
      by (simp add: 1 [OF False] digit_val_char)
    finally show ?thesis by simp
  qed
qed

lemma takeWhile_stops: "stops r \<Longrightarrow> takeWhile is_digit r = []"
  by (cases r) (simp_all add: stops_def)

lemma dropWhile_stops: "stops r \<Longrightarrow> dropWhile is_digit r = r"
  by (cases r) (simp_all add: stops_def)

lemma read_digits_digits: "stops r \<Longrightarrow> read_digits (digits n @ r) = Some (n, r)"
proof -
  assume r: "stops r"
  have take: "takeWhile is_digit (digits n @ r) = digits n"
    using digits_all by (simp add: takeWhile_stops [OF r])
  have drop: "dropWhile is_digit (digits n @ r) = r"
    using digits_all by (simp add: dropWhile_stops [OF r])
  show ?thesis
    by (simp add: read_digits_def take drop digits_nonempty number_of_digits)
qed

lemma minus_not_digit: "\<not> is_digit (CHR ''-'')"
  by (simp add: is_digit_def)

lemma digits_Cons: "\<exists>c cs. digits n = c # cs \<and> is_digit c"
proof (cases "digits n")
  case Nil
  then show ?thesis by (simp add: digits_nonempty)
next
  case (Cons c cs)
  then have "c \<in> set (digits n)" by simp
  then have "is_digit c" by (rule digits_all)
  with Cons show ?thesis by simp
qed

lemma read_int_show: "stops r \<Longrightarrow> read_int (show_int i @ r) = Some (i, r)"
proof (cases "i < 0")
  case True
  assume "stops r"
  then show ?thesis
    using True by (simp add: read_int_def show_int_def read_digits_digits)
next
  case False
  assume r: "stops r"
  obtain c cs where d: "digits (nat i) = c # cs" and c: "is_digit c"
    using digits_Cons by blast
  from c have "c \<noteq> CHR ''-''"
    using minus_not_digit by auto
  moreover have "read_digits (c # cs @ r) = Some (nat i, r)"
    using read_digits_digits [OF r, of "nat i"] by (simp add: d)
  ultimately show ?thesis
    using False by (simp add: read_int_def show_int_def d)
qed

lemma show_int_Cons: "\<exists>c cs. show_int i = c # cs \<and> (c = CHR ''-'' \<or> is_digit c)"
  using digits_Cons [of "nat i"] by (auto simp: show_int_def)

lemma read_string_escaped:
  "read_string (concat (map escape s) @ CHR 0x22 # r) = Some (s, r)"
  by (induction s) (simp_all add: escape_def)

lemma not_digit_chars:
  "\<not> is_digit (CHR '','')" "\<not> is_digit (CHR '']'')" "\<not> is_digit (CHR ''}'')"
  by (simp_all add: is_digit_def)

lemma digit_not_special:
  "is_digit c \<Longrightarrow> c \<noteq> CHR 0x22 \<and> c \<noteq> CHR ''['' \<and> c \<noteq> CHR ''{'' \<and> c \<noteq> CHR ''n''"
  by (auto simp: is_digit_def)

lemma parse_value_int:
  assumes "stops r"
  shows "parse_value (Suc n) (show_int i @ r) = Some (JInt i, r)"
proof -
  obtain c cs where sh: "show_int i = c # cs" and c: "c = CHR ''-'' \<or> is_digit c"
    using show_int_Cons by blast
  from c have special: "c \<noteq> CHR 0x22 \<and> c \<noteq> CHR ''['' \<and> c \<noteq> CHR ''{'' \<and> c \<noteq> CHR ''n''"
    using digit_not_special by auto
  have "read_int (c # cs @ r) = Some (i, r)"
    using read_int_show [OF assms, of i] by (simp add: sh)
  with special show ?thesis
    by (simp add: sh)
qed

lemma stops_simps:
  "stops (CHR '','' # r)" "stops (CHR '']'' # r)" "stops (CHR ''}'' # r)" "stops []"
  by (simp_all add: stops_def not_digit_chars)

lemma dumps_Cons: "\<exists>c cs. dumps v = c # cs \<and> c \<noteq> CHR '']''"
proof (cases v)
  case (JInt i)
  obtain c cs where sh: "show_int i = c # cs" and c: "c = CHR ''-'' \<or> is_digit c"
    using show_int_Cons by blast
  from c have "c \<noteq> CHR '']''"
    using not_digit_chars by auto
  with sh JInt show ?thesis by simp
qed (simp_all add: quote_def)

lemma commas_Cons:
  assumes "xs \<noteq> []"
  shows "\<exists>c cs. commas (map dumps xs) = c # cs \<and> c \<noteq> CHR '']''"
proof -
  obtain x ys where xs: "xs = x # ys"
    using assms by (cases xs) auto
  obtain c cs where d: "dumps x = c # cs" and c: "c \<noteq> CHR '']''"
    using dumps_Cons by blast
  show ?thesis
    by (cases ys) (simp_all add: xs d c)
qed

lemma parse_elems_dumps:
  assumes "xs \<noteq> []"
    and "\<And>x n r. x \<in> set xs \<Longrightarrow> length (dumps x) \<le> n \<Longrightarrow> stops r \<Longrightarrow>
           parse_value n (dumps x @ r) = Some (x, r)"
    and "length (commas (map dumps xs)) + 1 \<le> n"
  shows "parse_elems n (commas (map dumps xs) @ CHR '']'' # r) = Some (xs, r)"
  using assms
proof (induction xs arbitrary: n rule: list_nonempty_induct)
  case (single x)
  from single(2) obtain m where n: "n = Suc m" and m: "length (dumps x) \<le> m"
    by (cases n) auto
  have "parse_value m (dumps x @ CHR '']'' # r) = Some (x, CHR '']'' # r)"
    by (rule single(1)) (simp_all add: m stops_simps)
  then show ?case
    by (simp add: n)
next
  case (cons x xs)
  obtain y ys where xs: "xs = y # ys"
    using cons(1) by (cases xs) auto
  have shape: "commas (map dumps (x # xs)) = dumps x @ CHR '','' # commas (map dumps xs)"
    by (simp add: xs)
  have "length (commas (map dumps (x # xs))) =
      length (dumps x) + length (commas (map dumps xs)) + 1"
    by (simp add: xs)
  with cons(4) have bound: "length (dumps x) + length (commas (map dumps xs)) + 2 \<le> n"
    by linarith
  then obtain m where n: "n = Suc m"
    and m: "length (dumps x) \<le> m" "length (commas (map dumps xs)) + 1 \<le> m"
    by (cases n) auto
  have first: "parse_value m (dumps x @ CHR '','' # commas (map dumps xs) @ CHR '']'' # r)
      = Some (x, CHR '','' # commas (map dumps xs) @ CHR '']'' # r)"
    by (rule cons(3)) (simp_all add: m stops_simps)
  have rest: "parse_elems m (commas (map dumps xs) @ CHR '']'' # r) = Some (xs, r)"
    by (rule cons(2)) (use cons(3) m in auto)
  show ?case
    unfolding shape n by (simp add: first rest)
qed

lemma dumps_JObj: "dumps (JObj kvs) = CHR ''{'' # commas (map member_text kvs) @ ''}''"
  by (simp add: member_text_def case_prod_beta cong: map_cong)

lemma members_Cons:
  assumes "kvs \<noteq> []"
  shows "\<exists>cs. commas (map member_text kvs) = CHR 0x22 # cs"
proof -
  obtain kv ys where kvs: "kvs = kv # ys"
    using assms by (cases kvs) auto
  show ?thesis
    by (cases ys) (simp_all add: kvs member_text_def quote_def)
qed

lemma parse_members_dumps:
  assumes "kvs \<noteq> []"
    and "\<And>k v n r. (k, v) \<in> set kvs \<Longrightarrow> length (dumps v) \<le> n \<Longrightarrow> stops r \<Longrightarrow>
           parse_value n (dumps v @ r) = Some (v, r)"
    and "length (commas (map member_text kvs)) + 1 \<le> n"
  shows "parse_members n (commas (map member_text kvs) @ CHR ''}'' # r) = Some (kvs, r)"
  using assms
proof (induction kvs arbitrary: n rule: list_nonempty_induct)
  case (single kv)
  obtain k v where kv: "kv = (k, v)" by (cases kv)
  from single(2) obtain m where n: "n = Suc m" and m: "length (dumps v) \<le> m"
    by (cases n) (auto simp: kv member_text_def)
  have key: "read_string (concat (map escape k) @ CHR 0x22 # CHR '':'' # dumps v @ CHR ''}'' # r)
      = Some (k, CHR '':'' # dumps v @ CHR ''}'' # r)"
    by (rule read_string_escaped)
  have val: "parse_value m (dumps v @ CHR ''}'' # r) = Some (v, CHR ''}'' # r)"
    by (rule single(1)) (simp_all add: kv m stops_simps)
  show ?case
    by (simp add: n kv member_text_def quote_def key val)
next
  case (cons kv kvs)
  obtain k v where kv: "kv = (k, v)" by (cases kv)
  obtain y ys where kvs: "kvs = y # ys"
    using cons(1) by (cases kvs) auto
  have shape: "commas (map member_text (kv # kvs)) = member_text kv @ CHR '','' # commas (map member_text kvs)"
    by (simp add: kvs)
  have "length (commas (map member_text (kv # kvs))) =
      length (member_text kv) + length (commas (map member_text kvs)) + 1"
    by (simp add: kvs)
  moreover have "length (dumps v) \<le> length (member_text kv)"
    by (simp add: kv member_text_def)
  ultimately have bound: "length (dumps v) + length (commas (map member_text kvs)) + 2 \<le> n"
    using cons(4) by linarith
  then obtain m where n: "n = Suc m"
    and m: "length (dumps v) \<le> m" "length (commas (map member_text kvs)) + 1 \<le> m"
    by (cases n) auto
  have key: "read_string (concat (map escape k) @ CHR 0x22 # CHR '':'' # dumps v @ CHR '','' #
        commas (map member_text kvs) @ CHR ''}'' # r)
      = Some (k, CHR '':'' # dumps v @ CHR '','' # commas (map member_text kvs) @ CHR ''}'' # r)"
    by (rule read_string_escaped)
  have val: "parse_value m (dumps v @ CHR '','' # commas (map member_text kvs) @ CHR ''}'' # r)
      = Some (v, CHR '','' # commas (map member_text kvs) @ CHR ''}'' # r)"
    by (rule cons(3) [of k]) (simp_all add: kv m stops_simps)
  have rest: "parse_members m (commas (map member_text kvs) @ CHR ''}'' # r) = Some (kvs, r)"
    by (rule cons(2)) (use cons(3) m in auto)
  show ?case
    unfolding shape n by (simp add: kv member_text_def [of "(k, v)"] quote_def key val rest)
qed

lemma parse_value_dumps:
  "length (dumps v) \<le> n \<Longrightarrow> stops r \<Longrightarrow> parse_value n (dumps v @ r) = Some (v, r)"
proof (induction v arbitrary: n r)
  case JNull
  then obtain m where "n = Suc m" by (cases n) auto
  then show ?case by simp
next
  case (JInt i)
  obtain c cs where "show_int i = c # cs"
    using show_int_Cons by blast
  with JInt(1) obtain m where "n = Suc m" by (cases n) auto
  with JInt(2) show ?case
    by (simp add: parse_value_int del: parse_value.simps)
next
  case (JStr s)
  then obtain m where "n = Suc m" by (cases n) (auto simp: quote_def)
  then show ?case
    by (simp add: quote_def read_string_escaped)
next
  case (JArr xs)
  from JArr(2) obtain m where n: "n = Suc m" and m: "length (commas (map dumps xs)) + 1 \<le> m"
    by (cases n) auto
  show ?case
  proof (cases "xs = []")
    case True
    then show ?thesis by (simp add: n)
  next
    case False
    obtain c cs where first: "commas (map dumps xs) = c # cs" and c: "c \<noteq> CHR '']''"
      using commas_Cons [OF False] by blast
    have "parse_elems m (commas (map dumps xs) @ CHR '']'' # r) = Some (xs, r)"
      using False JArr(1) m by (rule parse_elems_dumps)
    then have "parse_elems m (c # cs @ CHR '']'' # r) = Some (xs, r)"
      by (simp add: first)
    then show ?thesis
      by (simp add: n first c)
  qed
next
  case (JObj kvs)
  have "length (dumps (JObj kvs)) = length (commas (map member_text kvs)) + 2"
    by (simp add: dumps_JObj del: dumps.simps)
  with JObj(2) have "length (commas (map member_text kvs)) + 2 \<le> n"
    by linarith
  then obtain m where n: "n = Suc m" and m: "length (commas (map member_text kvs)) + 1 \<le> m"
    by (cases n) auto
  show ?case
  proof (cases "kvs = []")
    case True
    then show ?thesis by (simp add: n)
  next
    case False
    obtain cs where first: "commas (map member_text kvs) = CHR 0x22 # cs"
      using members_Cons [OF False] by blast
    have each: "parse_value n' (dumps v @ r') = Some (v, r')"
      if "(k, v) \<in> set kvs" "length (dumps v) \<le> n'" "stops r'" for k v n' r'
      using that JObj(1) [of "(k, v)" v n' r'] by simp
    have "parse_members m (commas (map member_text kvs) @ CHR ''}'' # r) = Some (kvs, r)"
      using False each m by (rule parse_members_dumps)
    then have "parse_members m (CHR 0x22 # cs @ CHR ''}'' # r) = Some (kvs, r)"
      by (simp add: first)
    then show ?thesis
      by (simp add: n dumps_JObj first del: dumps.simps)
  qed
qed

lemma loads_dumps: "loads (dumps v) = Some v"
  using parse_value_dumps [of v "Suc (length (dumps v))" "[]"]
  by (simp add: loads_def stops_simps)

section \<open>The text-safe encoding can be decoded\<close>

lemma b64_index_char: "n < 64 \<Longrightarrow> b64_index (b64_char n) = Some n"
  by (auto simp: b64_index_def b64_char_def Let_def)

lemma b64_char_not_pad: "n < 64 \<Longrightarrow> b64_char n \<noteq> CHR ''=''"
proof
  assume "n < 64" and "b64_char n = CHR ''=''"
  then have "b64_index (CHR ''='') = Some n"
    using b64_index_char by metis
  then show False
    by (simp add: b64_index_def)
qed

lemma sextet_bounds:
  "x < 256 \<Longrightarrow> sextet1 x < 64" "y < 256 \<Longrightarrow> sextet2 x y < 64" "z < 256 \<Longrightarrow> sextet3 y z < 64" "sextet4 z < 64"
  by (simp_all add: sextet1_def sextet2_def sextet3_def sextet4_def)

lemma octet1_sextets: "y < 256 \<Longrightarrow> octet1 (sextet1 x) (sextet2 x y) = x"
  by (simp add: octet1_def sextet1_def sextet2_def)

lemma octet2_sextets:
  assumes "y < 256" "z < 256"
  shows "octet2 (sextet2 x y) (sextet3 y z) = y"
proof -
  have "y div 16 < 16" using assms by simp
  then have "y div 16 mod 16 = y div 16" by simp
  with assms show ?thesis by (simp add: octet2_def sextet2_def sextet3_def)
qed

lemma octet3_sextets: "z < 256 \<Longrightarrow> octet3 (sextet3 y z) (sextet4 z) = z"
  by (simp add: octet3_def sextet3_def sextet4_def)

lemmas octets_of_sextets = octet1_sextets octet2_sextets octet3_sextets

lemma b64_sextet:
  "b64_index (b64_char (sextet1 (of_char a))) = Some (sextet1 (of_char a))"
  "b64_index (b64_char (sextet2 x (of_char b))) = Some (sextet2 x (of_char b))"
  "b64_index (b64_char (sextet2 x 0)) = Some (sextet2 x 0)"
  "b64_index (b64_char (sextet3 y (of_char c))) = Some (sextet3 y (of_char c))"
  "b64_index (b64_char (sextet3 y 0)) = Some (sextet3 y 0)"
  "b64_index (b64_char (sextet4 z)) = Some (sextet4 z)"
  "b64_char (sextet3 y (of_char c)) \<noteq> CHR ''=''"
  "b64_char (sextet3 y 0) \<noteq> CHR ''=''"
  "b64_char (sextet4 z) \<noteq> CHR ''=''"
  by (simp_all add: b64_index_char b64_char_not_pad sextet_bounds)

lemma b64_octet:
  "octet1 (sextet1 (of_char a)) (sextet2 (of_char a) (of_char b)) = of_char a"
  "octet1 (sextet1 (of_char a)) (sextet2 (of_char a) 0) = of_char a"
  "octet2 (sextet2 x (of_char b)) (sextet3 (of_char b) (of_char c)) = of_char b"
  "octet2 (sextet2 x (of_char b)) (sextet3 (of_char b) 0) = of_char b"
  "octet3 (sextet3 y (of_char c)) (sextet4 (of_char c)) = of_char c"
  by (simp_all add: octets_of_sextets)

lemma b64_round_trip: "b64decode (b64encode bs) = Some bs"
  by (induction bs rule: b64encode.induct) (simp_all add: b64_sextet b64_octet)

section \<open>Padding and the block mode can be undone\<close>

lemma pad_length:
  assumes n: "0 < n"
  shows "length (pad n s) mod n = 0"
proof -
  define q where "q = length s div n"
  define m where "m = length s mod n"
  have m: "m < n" using n by (simp add: m_def)
  have eq: "length s = q * n + m"
    by (simp add: q_def m_def)
  have "length (pad n s) = length s + (n - m)"
    by (simp add: pad_def m_def)
  also have "\<dots> = q * n + m + (n - m)"
    by (simp only: eq)
  also have "\<dots> = (q + 1) * n"
    using m by simp
  finally have "length (pad n s) = (q + 1) * n" .
  then show ?thesis by simp
qed

lemma pad_nonempty: "0 < n \<Longrightarrow> pad n s \<noteq> []"
  by (simp add: pad_def)

lemma unpad_pad:
  assumes "0 < n" "n < 256"
  shows "unpad n (pad n s) = Some s"
proof -
  let ?k = "n - length s mod n"
  have k: "0 < ?k" "?k \<le> n" "?k < 256"
    using assms by simp_all
  have last: "last (pad n s) = char_of ?k"
    using k by (simp add: pad_def)
  have of: "(of_char (char_of ?k) :: nat) = ?k"
    using k by simp
  have len: "length (pad n s) = length s + ?k"
    by (simp add: pad_def)
  have tail: "drop (length s + ?k - ?k) (pad n s) = replicate ?k (char_of ?k)"
    and front: "take (length s + ?k - ?k) (pad n s) = s"
    by (simp_all add: pad_def)
  have ne: "pad n s \<noteq> []"
    using k by (simp add: pad_def)
  have bounds: "\<not> (?k = 0 \<or> n < ?k \<or> length s + ?k < ?k)"
    using k by arith
  show ?thesis
    unfolding unpad_def last of Let_def len tail front
    using ne bounds by simp
qed

lemma blocks_empty: "blocks n [] = []"
  by (subst blocks.simps) simp

lemma blocks_step: "0 < n \<Longrightarrow> s \<noteq> [] \<Longrightarrow> blocks n s = take n s # blocks n (drop n s)"
  by (subst blocks.simps) simp

lemma blocks_append:
  "0 < n \<Longrightarrow> length b = n \<Longrightarrow> blocks n (b @ s) = b # blocks n s"
  by (subst blocks_step) auto

lemma blocks_concat:
  "0 < n \<Longrightarrow> \<forall>b \<in> set bs. length b = n \<Longrightarrow> blocks n (concat bs) = bs"
  by (induction bs) (simp_all add: blocks_empty blocks_append)

lemma blocks_whole:
  "0 < n \<Longrightarrow> length s mod n = 0 \<Longrightarrow>
   (\<forall>b \<in> set (blocks n s). length b = n) \<and> concat (blocks n s) = s"
proof (induction "length s" arbitrary: s rule: less_induct)
  case less
  show ?case
  proof (cases "s = []")
    case True
    then show ?thesis by (simp add: blocks_empty)
  next
    case False
    have len: "n \<le> length s"
    proof (rule ccontr)
      assume "\<not> n \<le> length s"
      then have "length s mod n = length s" by simp
      with less.prems(2) False show False by simp
    qed
    have shorter: "length (drop n s) < length s"
      using less.prems(1) False by simp
    have whole: "length (drop n s) mod n = 0"
      using less.prems(2) le_mod_geq [OF len] by simp
    note ih = less.hyps [OF shorter less.prems(1) whole]
    have step: "blocks n s = take n s # blocks n (drop n s)"
      by (rule blocks_step [OF less.prems(1) False])
    have "length (take n s) = n"
      using len by simp
    with ih show ?thesis
      unfolding step by simp
  qed
qed

lemma ecb_inverse:
  assumes n: "0 < n"
    and whole: "length s mod n = 0"
    and keeps: "\<And>b. length b = n \<Longrightarrow> length (f b) = n"
    and inv: "\<And>b. length b = n \<Longrightarrow> g (f b) = b"
  shows "ecb g n (ecb f n s) = s"
proof -
  from blocks_whole [OF n whole]
  have bl: "\<forall>b \<in> set (blocks n s). length b = n" and cat: "concat (blocks n s) = s"
    by simp_all
  have "\<forall>b \<in> set (map f (blocks n s)). length b = n"
    using bl keeps by auto
  then have "blocks n (concat (map f (blocks n s))) = map f (blocks n s)"
    by (rule blocks_concat [OF n])
  then have "ecb g n (ecb f n s) = concat (map g (map f (blocks n s)))"
    by (simp add: ecb_def)
  also have "map g (map f (blocks n s)) = blocks n s"
    using bl inv by (simp add: map_idI)
  finally show ?thesis by (simp add: cat)
qed

lemma ecb_length:
  assumes n: "0 < n"
    and whole: "length s mod n = 0"
    and keeps: "\<And>b. length b = n \<Longrightarrow> length (f b) = n"
  shows "length (ecb f n s) = length s"
proof -
  from blocks_whole [OF n whole]
  have bl: "\<forall>b \<in> set (blocks n s). length b = n" and cat: "concat (blocks n s) = s"
    by simp_all
  have "map (length \<circ> f) (blocks n s) = map length (blocks n s)"
    using bl keeps by simp
  then have "length (concat (map f (blocks n s))) = length (concat (blocks n s))"
    by (simp only: length_concat map_map)
  then show ?thesis by (simp add: ecb_def cat)
qed

section \<open>Decryption undoes encryption\<close>

lemma codec_round_trip:
  assumes ok: "cipher_ok C"
  shows "decrypt_payload C (encrypt_payload C p key) key = Inr p"
proof -
  let ?n = "block_size C"
  let ?plain = "pad ?n (dumps p)"
  let ?bytes = "ecb (encrypt_block C key) ?n ?plain"
  from ok have n: "0 < ?n" and small: "?n < 256"
    by (simp_all add: cipher_ok_def)
  from ok have keeps: "length (encrypt_block C key b) = ?n" if "length b = ?n" for b
    using that by (simp add: cipher_ok_def)
  from ok have inv: "decrypt_block C key (encrypt_block C key b) = b" if "length b = ?n" for b
    using that by (simp add: cipher_ok_def)
  have whole: "length ?plain mod ?n = 0"
    by (rule pad_length [OF n])
  have len: "length ?bytes = length ?plain"
    using n whole keeps by (rule ecb_length)
  have "?plain \<noteq> []"
    by (rule pad_nonempty [OF n])
  with len have nonempty: "?bytes \<noteq> []"
    by auto
  have undone: "ecb (decrypt_block C key) ?n ?bytes = ?plain"
    using n whole keeps inv by (rule ecb_inverse)
  have plain: "unpad ?n ?plain = Some (dumps p)"
    by (rule unpad_pad [OF n small])
  show ?thesis
    by (simp add: decrypt_payload_def encrypt_payload_def b64_round_trip nonempty len whole
        undone plain loads_dumps)
qed

lemma shift_byte_back: "shift_byte (256 - n mod 256) (shift_byte n c) = c"
proof -
  let ?x = "of_char c :: nat"
  let ?r = "n mod 256"
  have r: "?r < 256" by simp
  have "((?x + n) mod 256 + (256 - ?r)) mod 256 = ((?x + ?r) mod 256 + (256 - ?r)) mod 256"
    by (simp add: mod_add_right_eq)
  also have "\<dots> = (?x + ?r + (256 - ?r)) mod 256"
    by (simp only: mod_add_left_eq)
  also have "?x + ?r + (256 - ?r) = ?x + 256"
    using r by linarith
  finally have "((?x + n) mod 256 + (256 - ?r)) mod 256 = ?x mod 256"
    by simp
  then have "char_of ((?x + n) mod 256 + (256 - ?r)) = char_of ?x"
    by (simp only: char_of_quasi_inj)
  then show ?thesis
    by (simp add: shift_byte_def)
qed

lemma shifting_ok: "cipher_ok shifting"
  by (simp add: cipher_ok_def shifting_def shift_byte_back comp_def)

text \<open>
  Claim C1: for every plaintext structure \<open>P\<close> and key \<open>K\<close>, decrypting the result of
  encrypting \<open>P\<close> with \<open>K\<close> yields \<open>P\<close> again, whatever block cipher the codec runs on.
\<close>

theorem decrypt_encrypt_payload:
  "cipher_ok C \<Longrightarrow> decrypt_payload C (encrypt_payload C P K) K = Inr P"
  by (rule codec_round_trip)

theorem decrypt_encrypt_payload_witness:
  "cipher_ok shifting
   \<and> decrypt_payload shifting
        (encrypt_payload shifting (JObj [(''fake-key'', JStr ''fake-value'')])
           (generic_key shifting))
        (generic_key shifting)
      = Inr (JObj [(''fake-key'', JStr ''fake-value'')])"
  using decrypt_encrypt_payload [OF shifting_ok] shifting_ok by simp

section \<open>Reading a response\<close>

lemma replying_reply:
  "cipher_ok C \<Longrightarrow> replying C payload key di request = Reply r \<Longrightarrow>
   decrypt_payload C (pack r) key = Inr payload"
  by (auto simp: replying_def codec_round_trip)

lemma those_str_of: "those (map str_of (map (\<lambda>kv. JStr (f kv)) ps)) = Some (map f ps)"
  by (induction ps) simp_all

lemma those_val_of: "those (map val_of (map (\<lambda>kv. json_of (f kv)) ps)) = Some (map f ps)"
proof (induction ps)
  case Nil
  show ?case by simp
next
  case (Cons kv ps)
  have "val_of (json_of (f kv)) = Some (f kv)"
    by (cases "f kv") simp_all
  with Cons show ?case by simp
qed

lemma update_fresh: "k \<notin> fst ` set al \<Longrightarrow> AList.update k v al = al @ [(k, v)]"
  by (induction al) auto

lemma fold_dict_set_distinct:
  "distinct (map fst (acc @ ps)) \<Longrightarrow>
   foldl (\<lambda>m (k, v). dict_set m k v) acc ps = acc @ ps"
proof (induction ps arbitrary: acc)
  case Nil
  show ?case by simp
next
  case (Cons kv ps)
  obtain k v where kv: "kv = (k, v)" by (cases kv)
  from Cons(2) have fresh: "k \<notin> fst ` set acc"
    by (auto simp: kv)
  from Cons(2) have "distinct (map fst ((acc @ [(k, v)]) @ ps))"
    by (simp add: kv)
  then have "foldl (\<lambda>m (k, v). dict_set m k v) (acc @ [(k, v)]) ps = (acc @ [(k, v)]) @ ps"
    by (rule Cons(1))
  then show ?case
    by (simp add: kv dict_set_def update_fresh [OF fresh])
qed

lemma dict_of_pairs_distinct: "distinct (map fst ps) \<Longrightarrow> dict_of_pairs ps = ps"
  using fold_dict_set_distinct [of "[]" ps] by (simp add: dict_of_pairs_def)

lemma exchange_reply: "nw di request = Reply r \<Longrightarrow> exchange nw di request = Inr r"
  by (simp add: exchange_def)

lemma exchange_timeout: "nw di request = No_reply \<Longrightarrow> exchange nw di request = Inl TimeoutError"
  by (simp add: exchange_def)

section \<open>The operations against devices that encrypt their answers\<close>

text \<open>
  With any block cipher, a device that answers the bind packet with an encrypted
  \<open>bindok\<close> payload hands over its key; a device that answers a status request with an
  encrypted payload of names and values hands over the zipped dict; and a device that
  echoes a command back makes \<open>send_state\<close> return the dict it was given.
\<close>

lemma bind_device_end_to_end:
  assumes "cipher_ok C"
    and "obj_get p ''t'' = Some (JStr ''bindok'')"
    and "obj_get p ''key'' = Some (JStr k)"
  shows "bind_device C (replying C p (generic_key C)) di None = Inr k"
  using assms by (simp add: bind_device_def exchange_def replying_def codec_round_trip)

lemma bind_device_nobody: "bind_device C nobody di None = Inl TimeoutError"
  by (simp add: bind_device_def exchange_def nobody_def)

lemma bind_device_supplied_key: "bind_device C nw di (Some k) = Inr k"
  by (simp add: bind_device_def)

lemma request_state_end_to_end:
  assumes "cipher_ok C" and "distinct cols" and "length cols = length dat"
  shows "request_state C
           (replying C (JObj [(''cols'', JArr (map JStr cols)),
                              (''dat'', JArr (map json_of dat))]) key)
           ns di key
         = Inr (zip cols dat)"
proof -
  let ?p = "JObj [(''cols'', JArr (map JStr cols)), (''dat'', JArr (map json_of dat))]"
  have names: "names_field ?p ''cols'' = Some cols"
    using those_str_of [of "\<lambda>n. n" cols] by (simp add: names_field_def)
  have vals: "values_field ?p ''dat'' = Some dat"
    using those_val_of [of "\<lambda>v. v" dat] by (simp add: values_field_def)
  have type: "type_ok ?p ''dat''"
    by (simp add: type_ok_def)
  have "distinct (map fst (zip cols dat))"
    using assms(2,3) by simp
  then have zipped: "dict_of_pairs (zip cols dat) = zip cols dat"
    by (rule dict_of_pairs_distinct)
  have run: "request_state C (replying C ?p key) ns di key =
      (if type_ok ?p ''dat'' then read_props ?p ''cols'' ''dat'' else Inl ProtocolError)"
    by (simp only: request_state_def exchange_def replying_def reply.case sum.case packet.sel
        codec_round_trip [OF assms(1)])
  show ?thesis
    unfolding run
    using assms(3) by (simp add: type read_props_def names vals zip_props_def zipped
        del: obj_get.simps)
qed

lemma send_state_echo:
  assumes "cipher_ok C" and "distinct (map fst props)"
  shows "send_state C (echo_responder C key) props di key = Inr props"
proof -
  let ?ack = "JObj [(''opt'', JArr (map (\<lambda>kv. JStr (fst kv)) props)),
                    (''val'', JArr (map (\<lambda>kv. json_of (snd kv)) props))]"
  have ack: "ack_of (cmd_request props) = Some ?ack"
    by (simp add: ack_of_def cmd_request_def)
  have reply: "echo_responder C key di (Packet (encrypt_payload C (cmd_request props) key))
      = Reply (Packet (encrypt_payload C ?ack key))"
    unfolding echo_responder_def
    by (simp only: packet.sel codec_round_trip [OF assms(1)] ack sum.case option.case)
  have names: "names_field ?ack ''opt'' = Some (map fst props)"
    using those_str_of [of fst props] by (simp add: names_field_def)
  have vals: "values_field ?ack ''val'' = Some (map snd props)"
    using those_val_of [of snd props] by (simp add: values_field_def)
  have zipped: "dict_of_pairs (zip (map fst props) (map snd props)) = props"
    using assms(2) by (simp add: zip_map_fst_snd dict_of_pairs_distinct)
  have run: "send_state C (echo_responder C key) props di key = read_props ?ack ''opt'' ''val''"
    by (simp only: send_state_def exchange_def reply reply.case sum.case packet.sel
        codec_round_trip [OF assms(1)])
  show ?thesis
    unfolding run
    by (simp add: read_props_def names vals zip_props_def zipped del: obj_get.simps)
qed

section \<open>Binding over the network\<close>

text \<open>
  Claim C2.  With no key supplied, when the device's response to the bind packet decrypts,
  under the generic key, to a \<open>bindok\<close> payload carrying the key string \<open>k\<close>, \<open>bind\<close> returns
  exactly \<open>k\<close>; when no response arrives within the window, it raises the timeout error.
\<close>

theorem bind_device_key_or_timeout:
  "(nw di (Packet (encrypt_payload C (bind_request di) (generic_key C))) = Reply r
      \<and> decrypt_payload C (pack r) (generic_key C) = Inr p
      \<and> obj_get p ''t'' = Some (JStr ''bindok'')
      \<and> obj_get p ''key'' = Some (JStr k)
    \<longrightarrow> bind_device C nw di None = Inr k)
   \<and> (nw di (Packet (encrypt_payload C (bind_request di) (generic_key C))) = No_reply
    \<longrightarrow> bind_device C nw di None = Inl TimeoutError)"
  by (simp add: bind_device_def exchange_def)

theorem bind_device_key_or_timeout_witness:
  "bind_device shifting (replying shifting bindok_payload (generic_key shifting)) mock_device None
     = Inr ''acbd1234''
   \<and> bind_device shifting nobody mock_device None = Inl TimeoutError"
proof -
  let ?request = "Packet (encrypt_payload shifting (bind_request mock_device) (generic_key shifting))"
  let ?nw = "replying shifting bindok_payload (generic_key shifting)"
  let ?r = "Packet (encrypt_payload shifting bindok_payload (generic_key shifting))"
  have reply: "?nw mock_device ?request = Reply ?r"
    by (simp add: replying_def)
  have plain: "decrypt_payload shifting (pack ?r) (generic_key shifting) = Inr bindok_payload"
    by (rule replying_reply [OF shifting_ok reply])
  have fields: "obj_get bindok_payload ''t'' = Some (JStr ''bindok'')"
    "obj_get bindok_payload ''key'' = Some (JStr ''acbd1234'')"
    by (simp_all add: bindok_payload_def)
  have silent: "nobody mock_device ?request = No_reply"
    by (simp add: nobody_def)
  from bind_device_key_or_timeout [of ?nw mock_device shifting ?r bindok_payload "''acbd1234''"]
    reply plain fields
  have "bind_device shifting ?nw mock_device None = Inr ''acbd1234''"
    by blast
  moreover from bind_device_key_or_timeout [of nobody mock_device shifting] silent
  have "bind_device shifting nobody mock_device None = Inl TimeoutError"
    by blast
  ultimately show ?thesis by simp
qed

section \<open>Requesting state\<close>

text \<open>
  Claim C3.  For every list of requested names: when the response decrypts to a payload of
  the expected type whose \<open>cols\<close> and \<open>dat\<close> lists are equally long, \<open>request_state\<close> returns
  the two lists zipped by position into a dict (the list of pairs itself when the names
  are distinct); when the two lists differ in length, or the payload is not of the expected
  type (another \<open>t\<close>, or a missing or malformed list), it fails with a protocol error.
\<close>

theorem request_state_zips:
  assumes "nw di (Packet (encrypt_payload C (status_request ns di) key)) = Reply r"
    and "decrypt_payload C (pack r) key = Inr p"
  shows "(type_ok p ''dat'' \<and> names_field p ''cols'' = Some cols
            \<and> values_field p ''dat'' = Some dat \<and> length cols = length dat
          \<longrightarrow> request_state C nw ns di key = Inr (dict_of_pairs (zip cols dat))
              \<and> (distinct cols \<longrightarrow> request_state C nw ns di key = Inr (zip cols dat)))
         \<and> (names_field p ''cols'' = Some cols \<and> values_field p ''dat'' = Some dat
            \<and> length cols \<noteq> length dat
          \<longrightarrow> request_state C nw ns di key = Inl ProtocolError)
         \<and> (\<not> type_ok p ''dat'' \<or> names_field p ''cols'' = None \<or> values_field p ''dat'' = None
          \<longrightarrow> request_state C nw ns di key = Inl ProtocolError)"
proof -
  have run: "request_state C nw ns di key =
      (if type_ok p ''dat'' then read_props p ''cols'' ''dat'' else Inl ProtocolError)"
    using assms by (simp add: request_state_def exchange_def)
  have zipped: "dict_of_pairs (zip cols dat) = zip cols dat"
    if "distinct cols" "length cols = length dat"
    using that by (intro dict_of_pairs_distinct) simp
  show ?thesis
    unfolding run
    by (auto simp: read_props_def zip_props_def zipped split: option.splits)
qed

theorem request_state_zips_witness:
  "request_state shifting (replying shifting status_payload ''acbd1234'') [''prop-a'', ''prop-b'']
     mock_device ''acbd1234''
     = Inr [(''prop-a'', PStr ''val-a''), (''prop-b'', PStr ''val-b'')]
   \<and> request_state shifting (replying shifting short_payload ''acbd1234'') [''prop-a'', ''prop-b'']
       mock_device ''acbd1234''
     = Inl ProtocolError
   \<and> request_state shifting (replying shifting bindok_payload ''acbd1234'') [''prop-a'', ''prop-b'']
       mock_device ''acbd1234''
     = Inl ProtocolError"
proof -
  let ?ns = "[''prop-a'', ''prop-b'']"
  let ?request = "Packet (encrypt_payload shifting (status_request ?ns mock_device) ''acbd1234'')"
  have reply: "replying shifting payload ''acbd1234'' mock_device ?request
      = Reply (Packet (encrypt_payload shifting payload ''acbd1234''))" for payload
    by (simp add: replying_def)
  have plain: "decrypt_payload shifting
      (pack (Packet (encrypt_payload shifting payload ''acbd1234''))) ''acbd1234'' = Inr payload"
    for payload
    by (rule replying_reply [OF shifting_ok reply])
  have good: "type_ok status_payload ''dat''"
    "names_field status_payload ''cols'' = Some [''prop-a'', ''prop-b'']"
    "values_field status_payload ''dat'' = Some [PStr ''val-a'', PStr ''val-b'']"
    by (simp_all add: status_payload_def type_ok_def names_field_def values_field_def)
  have short: "names_field short_payload ''cols'' = Some [''prop-a'', ''prop-b'']"
    "values_field short_payload ''dat'' = Some [PStr ''val-a'']"
    by (simp_all add: short_payload_def names_field_def values_field_def)
  have wrong: "\<not> type_ok bindok_payload ''dat''"
    by (simp add: bindok_payload_def type_ok_def)
  from request_state_zips [where nw = "replying shifting status_payload ''acbd1234''" and di = mock_device
      and cols = "[''prop-a'', ''prop-b'']" and dat = "[PStr ''val-a'', PStr ''val-b'']",
      OF reply plain] good
  have one: "request_state shifting (replying shifting status_payload ''acbd1234'') ?ns
      mock_device ''acbd1234'' = Inr [(''prop-a'', PStr ''val-a''), (''prop-b'', PStr ''val-b'')]"
    by (simp add: dict_of_pairs_def dict_set_def)
  from request_state_zips [where nw = "replying shifting short_payload ''acbd1234''" and di = mock_device
      and cols = "[''prop-a'', ''prop-b'']" and dat = "[PStr ''val-a'']", OF reply plain] short
  have two: "request_state shifting (replying shifting short_payload ''acbd1234'') ?ns
      mock_device ''acbd1234'' = Inl ProtocolError"
    by simp
  from request_state_zips [where nw = "replying shifting bindok_payload ''acbd1234''" and di = mock_device,
      OF reply plain] wrong
  have three: "request_state shifting (replying shifting bindok_payload ''acbd1234'') ?ns
      mock_device ''acbd1234'' = Inl ProtocolError"
    by blast
  from one two three show ?thesis by simp
qed

section \<open>Sending state\<close>

text \<open>
  Claim C4.  For every input dict: when the acknowledgment decrypts to a payload whose
  \<open>opt\<close> and \<open>val\<close> lists are equally long, \<open>send_state\<close> returns the two lists zipped by
  position into a dict; and when the acknowledgment echoes the names and values of the
  input, in their order, \<open>send_state\<close> returns the input.
\<close>

theorem send_state_zips:
  assumes "nw di (Packet (encrypt_payload C (cmd_request props) key)) = Reply r"
    and "decrypt_payload C (pack r) key = Inr p"
  shows "(names_field p ''opt'' = Some opt \<and> values_field p ''val'' = Some val
            \<and> length opt = length val
          \<longrightarrow> send_state C nw props di key = Inr (dict_of_pairs (zip opt val)))
         \<and> (distinct (map fst props)
            \<and> names_field p ''opt'' = Some (map fst props)
            \<and> values_field p ''val'' = Some (map snd props)
          \<longrightarrow> send_state C nw props di key = Inr props)"
proof -
  have run: "send_state C nw props di key = read_props p ''opt'' ''val''"
    using assms by (simp add: send_state_def exchange_def)
  have echoed: "dict_of_pairs (zip (map fst props) (map snd props)) = props"
    if "distinct (map fst props)"
    using that by (simp add: zip_map_fst_snd dict_of_pairs_distinct)
  show ?thesis
    unfolding run
    by (auto simp: read_props_def zip_props_def echoed)
qed

theorem send_state_zips_witness:
  "distinct (map fst [(''prop-a'', PStr ''val-a''), (''prop-b'', PStr ''val-b'')])
   \<and> send_state shifting (echo_responder shifting ''acbd1234'')
        [(''prop-a'', PStr ''val-a''), (''prop-b'', PStr ''val-b'')] mock_device ''acbd1234''
      = Inr [(''prop-a'', PStr ''val-a''), (''prop-b'', PStr ''val-b'')]"
proof -
  let ?props = "[(''prop-a'', PStr ''val-a''), (''prop-b'', PStr ''val-b'')]"
  let ?ack = "JObj [(''opt'', JArr (map (\<lambda>kv. JStr (fst kv)) ?props)),
                    (''val'', JArr (map (\<lambda>kv. json_of (snd kv)) ?props))]"
  let ?request = "Packet (encrypt_payload shifting (cmd_request ?props) ''acbd1234'')"
  let ?r = "Packet (encrypt_payload shifting ?ack ''acbd1234'')"
  have ack: "ack_of (cmd_request ?props) = Some ?ack"
    by (simp add: ack_of_def cmd_request_def)
  have reply: "echo_responder shifting ''acbd1234'' mock_device ?request = Reply ?r"
    unfolding echo_responder_def
    by (simp only: packet.sel codec_round_trip [OF shifting_ok] ack sum.case option.case)
  have plain: "decrypt_payload shifting (pack ?r) ''acbd1234'' = Inr ?ack"
    by (simp only: packet.sel codec_round_trip [OF shifting_ok])
  have names: "names_field ?ack ''opt'' = Some (map fst ?props)"
    by (simp add: names_field_def)
  have vals: "values_field ?ack ''val'' = Some (map snd ?props)"
    by (simp add: values_field_def)
  have keys: "distinct (map fst ?props)"
    by simp
  from send_state_zips [where nw = "echo_responder shifting ''acbd1234''" and di = mock_device
      and opt = "map fst ?props" and val = "map snd ?props", OF reply plain] names vals keys
  have "send_state shifting (echo_responder shifting ''acbd1234'') ?props mock_device ''acbd1234''
      = Inr ?props"
    by blast
  with keys show ?thesis by blast
qed

end
